theory Spec2Isabelle
  imports Complex_Main
begin

section \<open>Data model\<close>

text \<open>
  The tables of the schema (001_create_tables.sql) that the order pipeline reads and
  writes, one record per row. A \<open>DECIMAL(10,2)\<close> column holds an exact number of
  hundredths and is an \<open>int\<close> counting them (9.99 is 999). An \<open>ENUM\<close> or text column is
  a \<open>string\<close>, a nullable column an \<open>option\<close>, a \<open>TIMESTAMP\<close> a \<open>nat\<close>. The tables that
  the pipeline writes (\<open>orders\<close>, \<open>order_items\<close>, \<open>kots\<close>, \<open>kot_items\<close>) have all their
  columns but \<open>created_at\<close> and \<open>updated_at\<close>, which no statement of the pipeline names;
  of the tables it only reads, the columns its queries use are kept. Several tables have
  columns of the same name (\<open>id\<close>, \<open>status\<close>, \<open>quantity\<close>); a field carries the table's
  prefix where that happens.
\<close>

type_synonym decimal2 = int

record menu_item_row =
  mi_id :: nat
  mi_subcategory_id :: nat
  mi_name :: string
  mi_price :: decimal2
  mi_is_available :: bool

record subcategory_row =
  sc_id :: nat
  sc_category_id :: nat

record category_row =
  c_id :: nat
  c_name :: string

record order_row =
  o_id :: nat
  order_number :: string
  table_id :: "nat option"
  session_id :: "nat option"
  user_id :: "nat option"
  customer_name :: "string option"
  order_type :: string
  subtotal :: decimal2
  tax_amount :: decimal2
  discount_amount :: decimal2
  total_amount :: decimal2
  o_status :: string
  payment_status :: string
  o_special_instructions :: "string option"
  created_by :: "nat option"

record order_item_row =
  oi_id :: nat
  oi_order_id :: nat
  oi_menu_item_id :: nat
  oi_quantity :: int
  unit_price :: decimal2
  total_price :: decimal2
  oi_special_instructions :: "string option"
  oi_status :: string

record kot_row =
  k_id :: nat
  kot_number :: string
  k_order_id :: nat
  printer_id :: "nat option"
  category_type :: string
  k_status :: string
  printed_at :: "nat option"
  completed_at :: "nat option"

record kot_item_row =
  ki_id :: nat
  ki_kot_id :: nat
  ki_order_item_id :: nat
  menu_item_name :: string
  ki_quantity :: int
  ki_special_instructions :: "string option"
  ki_status :: string

record printer_row =
  p_id :: nat
  p_type :: string
  is_active :: bool
  is_online :: bool
  last_test_print :: "nat option"

record printer_category_mapping_row =
  pcm_printer_id :: nat
  pcm_category_id :: nat
  pcm_subcategory_id :: "nat option"

text \<open>
  The database: every table is the list of its rows in insertion order, and each
  \<open>AUTO_INCREMENT\<close> counter holds the id the next insert receives. Of
  \<open>system_settings\<close> the two rows the pipeline reads are kept: \<open>tax_rate\<close> (a text that
  the route reads with \<open>parseFloat\<close>, held here as the number it denotes) and
  \<open>kot_auto_print\<close> (a text compared with \<open>'true'\<close>); \<open>None\<close> when the row is absent.
\<close>

record db =
  menu_items :: "menu_item_row list"
  subcategories :: "subcategory_row list"
  categories :: "category_row list"
  tax_rate :: "rat option"
  kot_auto_print :: "string option"
  orders :: "order_row list"
  order_items :: "order_item_row list"
  kots :: "kot_row list"
  kot_items :: "kot_item_row list"
  printers :: "printer_row list"
  printer_category_mappings :: "printer_category_mapping_row list"
  next_order_id :: nat
  next_order_item_id :: nat
  next_kot_id :: nat
  next_kot_item_id :: nat

text \<open>
  A statement sent to the database can be refused or lost (constraint, value out of
  range, connection); the driver then throws. Every statement of the modelled routes has
  a label, and a fault schedule says which of them throw. The statements inside a loop
  carry the index of the iteration.
\<close>

datatype stmt =
    BeginTransaction
  | SelectMenuItem nat
  | SelectTaxRate
  | InsertOrder
  | InsertOrderItem nat
  | SelectItemCategories
  | InsertKot
  | SelectOrderItems
  | SelectMenuItemName nat
  | InsertKotItem nat
  | Commit
  | SelectAutoPrint
  | UpdateOrderStatus
  | UpdateKot
  | UpdateKotItems
  | UpdateKotItem
  | CountNotReady
  | UpdateKotReady
  | SelectKot
  | SelectKotItems
  | SelectMappedPrinters
  | SelectDefaultPrinter
  | SelectPrinter
  | UpdateKotPrinted
  | UpdatePrinterTested
  | UpdatePrinterOffline

type_synonym faults = "stmt \<Rightarrow> bool"

text \<open>
  What lies outside the program: the clock (\<open>NOW()\<close>, \<open>new Date()\<close>), the two numbers
  generated from \<open>Date.now()\<close> and \<open>Math.random()\<close>, and the thermal printer driver
  (\<open>isPrinterConnected\<close>, and whether \<open>execute\<close> returns or throws), per printer id.
\<close>

record env =
  clock :: nat
  orderNumber :: string
  kotNumber :: string
  isPrinterConnected :: "nat \<Rightarrow> bool"
  execute_returns :: "nat \<Rightarrow> bool"

text \<open>The HTTP answers of the modelled routes.\<close>

datatype response =
    Success
  | Created nat string string rat
  | ValidationFailed
  | MenuItemUnavailable nat
  | InternalServerError

section \<open>Status updates (routes/kots.js, routes/orders)\<close>

text \<open>
  The handlers of the three status routes. Authentication and the role check run before
  a handler and are not modelled. A handler's \<open>catch\<close> block answers 500 for a statement
  that throws; the statements run on the pool, outside any transaction, so what was
  written before the throw stays.
\<close>

definition order_statuses :: "string list" where
  "order_statuses =
     [''Pending'', ''Confirmed'', ''Preparing'', ''Ready'', ''Served'', ''Completed'', ''Cancelled'']"

definition kot_statuses :: "string list" where
  "kot_statuses = [''Pending'', ''Printed'', ''Preparing'', ''Ready'', ''Served'']"

definition kot_item_statuses :: "string list" where
  "kot_item_statuses = [''Pending'', ''Preparing'', ''Ready'', ''Served'']"

text \<open>\<open>PUT /:id/status\<close> of the orders router: one \<open>UPDATE orders SET status = ?\<close>.\<close>

definition update_order_status :: "faults \<Rightarrow> nat \<Rightarrow> string \<Rightarrow> db \<Rightarrow> response \<times> db" where
  "update_order_status f orderId status d =
     (if status \<notin> set order_statuses then (ValidationFailed, d)
      else if f UpdateOrderStatus then (InternalServerError, d)
      else (Success,
            d\<lparr>orders := map (\<lambda>r. if o_id r = orderId then r\<lparr>o_status := status\<rparr> else r)
                            (orders d)\<rparr>))"

text \<open>
  \<open>PUT /:id/status\<close> of the KOT router. \<open>updateData\<close> is \<open>{status}\<close>, with
  \<open>completed_at\<close> added when the status is \<open>'Ready'\<close>; a second statement then sets every
  item of the ticket to \<open>'Ready'\<close>. The two statements run on the pool, outside any
  transaction.
\<close>

definition update_kot_status :: "faults \<Rightarrow> env \<Rightarrow> nat \<Rightarrow> string \<Rightarrow> db \<Rightarrow> response \<times> db" where
  "update_kot_status f e kotId status d =
     (if status \<notin> set kot_statuses then (ValidationFailed, d)
      else if f UpdateKot then (InternalServerError, d)
      else
        let d1 = d\<lparr>kots :=
                   map (\<lambda>k. if k_id k = kotId
                             then (if status = ''Ready''
                                   then k\<lparr>k_status := status, completed_at := Some (clock e)\<rparr>
                                   else k\<lparr>k_status := status\<rparr>)
                             else k)
                       (kots d)\<rparr>
        in if status = ''Ready''
           then (if f UpdateKotItems then (InternalServerError, d1)
                 else (Success,
                       d1\<lparr>kot_items :=
                            map (\<lambda>i. if ki_kot_id i = kotId then i\<lparr>ki_status := ''Ready''\<rparr> else i)
                                (kot_items d1)\<rparr>))
           else (Success, d1))"

text \<open>
  \<open>PUT /:kotId/items/:itemId/status\<close>: the item is updated; when the new status is
  \<open>'Ready'\<close> the items of the ticket that are not \<open>'Ready'\<close> are counted, and at count 0
  the ticket is set to \<open>'Ready'\<close> with \<open>completed_at = NOW()\<close>.
\<close>

definition update_kot_item_status ::
  "faults \<Rightarrow> env \<Rightarrow> nat \<Rightarrow> nat \<Rightarrow> string \<Rightarrow> db \<Rightarrow> response \<times> db" where
  "update_kot_item_status f e kotId itemId status d =
     (if status \<notin> set kot_item_statuses then (ValidationFailed, d)
      else if f UpdateKotItem then (InternalServerError, d)
      else
        let d1 = d\<lparr>kot_items :=
                   map (\<lambda>i. if ki_id i = itemId \<and> ki_kot_id i = kotId
                             then i\<lparr>ki_status := status\<rparr> else i)
                       (kot_items d)\<rparr>
        in if status = ''Ready''
           then (if f CountNotReady then (InternalServerError, d1)
                 else if length (filter (\<lambda>i. ki_kot_id i = kotId \<and> ki_status i \<noteq> ''Ready'')
                                        (kot_items d1)) = 0
                 then (if f UpdateKotReady then (InternalServerError, d1)
                       else (Success,
                             d1\<lparr>kots :=
                                  map (\<lambda>k. if k_id k = kotId
                                            then k\<lparr>k_status := ''Ready'',
                                                   completed_at := Some (clock e)\<rparr>
                                            else k)
                                      (kots d1)\<rparr>))
                 else (Success, d1))
           else (Success, d1))"

section \<open>Printing (services/printerService.js)\<close>

datatype print_error =
    KOTNotFound
  | NoActiveKitchenPrinter
  | PrinterNotFoundOrInactive
  | PrinterNotConnected
  | DriverFailure
  | DatabaseFailure

text \<open>
  \<open>initializePrinter\<close>: the printer row is read (\<open>WHERE id = ? AND is_active = TRUE\<close>) and
  a driver object is built from it. The map \<open>this.printers\<close> it fills is never read and is
  not modelled.
\<close>

definition initializePrinter :: "faults \<Rightarrow> nat \<Rightarrow> db \<Rightarrow> print_error + printer_row" where
  "initializePrinter f printerId d =
     (if f SelectPrinter then Inl DatabaseFailure
      else case filter (\<lambda>p. p_id p = printerId \<and> is_active p) (printers d) of
             [] \<Rightarrow> Inl PrinterNotFoundOrInactive
           | printerConfig # _ \<Rightarrow> Inr printerConfig)"

text \<open>
  \<open>testPrinter\<close>: the \<open>try\<close> block initialises the printer, asks the driver whether it
  is connected, prints and marks the printer online; the \<open>catch\<close> block marks it offline
  and throws again.
\<close>

definition testPrinter :: "faults \<Rightarrow> env \<Rightarrow> nat \<Rightarrow> db \<Rightarrow> (print_error + unit) \<times> db" where
  "testPrinter f e printerId d =
     (let attempt =
            (case initializePrinter f printerId d of
               Inl err \<Rightarrow> Inl err
             | Inr _ \<Rightarrow>
                 if \<not> isPrinterConnected e printerId then Inl PrinterNotConnected
                 else if \<not> execute_returns e printerId then Inl DriverFailure
                 else if f UpdatePrinterTested then Inl DatabaseFailure
                 else Inr ())
      in case attempt of
           Inr _ \<Rightarrow>
             (Inr (),
              d\<lparr>printers :=
                  map (\<lambda>p. if p_id p = printerId
                            then p\<lparr>last_test_print := Some (clock e), is_online := True\<rparr>
                            else p)
                      (printers d)\<rparr>)
         | Inl err \<Rightarrow>
             if f UpdatePrinterOffline then (Inl DatabaseFailure, d)
             else (Inl err,
                   d\<lparr>printers :=
                       map (\<lambda>p. if p_id p = printerId then p\<lparr>is_online := False\<rparr> else p)
                           (printers d)\<rparr>))"

text \<open>
  The three queries of \<open>printKOT\<close> that decide its course. \<open>kotData\<close> joins the ticket
  with its order. \<open>mapped_printers\<close> is the join of printers, mappings, subcategories,
  menu items, order items and ticket items for the ticket, restricted to active online
  printers; the query has \<open>LIMIT 1\<close> and no \<open>ORDER BY\<close>, and the model takes the first row
  of the join in table order. \<open>default_printers\<close> are the active online \<open>Kitchen\<close>
  printers.
\<close>

definition kotData :: "db \<Rightarrow> nat \<Rightarrow> kot_row list" where
  "kotData d kotId =
     [k. k \<leftarrow> kots d, k_id k = kotId, r \<leftarrow> orders d, o_id r = k_order_id k]"

definition mapped_printers :: "db \<Rightarrow> nat \<Rightarrow> printer_row list" where
  "mapped_printers d kotId =
     [p. p \<leftarrow> printers d, is_active p \<and> is_online p,
         pcm \<leftarrow> printer_category_mappings d, pcm_printer_id pcm = p_id p,
         sc \<leftarrow> subcategories d, pcm_subcategory_id pcm = Some (sc_id sc),
         mi \<leftarrow> menu_items d, mi_subcategory_id mi = sc_id sc,
         oi \<leftarrow> order_items d, oi_menu_item_id oi = mi_id mi,
         ki \<leftarrow> kot_items d, ki_order_item_id ki = oi_id oi \<and> ki_kot_id ki = kotId]"

definition default_printers :: "db \<Rightarrow> printer_row list" where
  "default_printers d =
     filter (\<lambda>p. p_type p = ''Kitchen'' \<and> is_active p \<and> is_online p) (printers d)"

definition select_printer :: "faults \<Rightarrow> nat \<Rightarrow> db \<Rightarrow> print_error + nat" where
  "select_printer f kotId d =
     (if f SelectMappedPrinters then Inl DatabaseFailure
      else case mapped_printers d kotId of
             p # _ \<Rightarrow> Inr (p_id p)
           | [] \<Rightarrow>
               if f SelectDefaultPrinter then Inl DatabaseFailure
               else (case default_printers d of
                       [] \<Rightarrow> Inl NoActiveKitchenPrinter
                     | p # _ \<Rightarrow> Inr (p_id p)))"

text \<open>
  \<open>printKOT\<close>. Formatting the ticket only fills the driver's buffer and is not modelled.
  Every \<open>throw\<close> leaves through the \<open>catch\<close> block, which logs and throws again: the
  result is the error and the state as it was. Only the last statement writes.
\<close>

definition printKOT :: "faults \<Rightarrow> env \<Rightarrow> nat \<Rightarrow> db \<Rightarrow> (print_error + nat) \<times> db" where
  "printKOT f e kotId d =
     (if f SelectKot then (Inl DatabaseFailure, d)
      else if kotData d kotId = [] then (Inl KOTNotFound, d)
      else if f SelectKotItems then (Inl DatabaseFailure, d)
      else case select_printer f kotId d of
             Inl err \<Rightarrow> (Inl err, d)
           | Inr printerId \<Rightarrow>
               (case initializePrinter f printerId d of
                  Inl err \<Rightarrow> (Inl err, d)
                | Inr _ \<Rightarrow>
                    if \<not> isPrinterConnected e printerId then (Inl PrinterNotConnected, d)
                    else if \<not> execute_returns e printerId then (Inl DriverFailure, d)
                    else if f UpdateKotPrinted then (Inl DatabaseFailure, d)
                    else (Inr printerId,
                          d\<lparr>kots :=
                              map (\<lambda>k. if k_id k = kotId
                                        then k\<lparr>k_status := ''Printed'',
                                               printed_at := Some (clock e)\<rparr>
                                        else k)
                                  (kots d)\<rparr>)))"

section \<open>Order creation (POST / of the orders router)\<close>

text \<open>
  A field of the request body is \<open>Undefined\<close> when the body does not have it. The four
  optional fields of the route are read from the body and bound to the insert as they
  are. \<open>session_id\<close> and \<open>special_instructions\<close> have no validator of their value and
  may be \<open>null\<close> (\<open>None\<close>); a \<open>table_id\<close> that is present passes \<open>isInt\<close> and a
  \<open>customer_name\<close> that is present is a text.
\<close>

datatype 'a body_field = Undefined | Defined 'a

record item_request =
  menu_item_id :: nat
  quantity :: int
  special_instructions :: "string option"

record order_request =
  req_table_id :: "nat body_field"
  req_session_id :: "nat option body_field"
  req_customer_name :: "string body_field"
  req_order_type :: string
  items :: "item_request list"
  req_special_instructions :: "string option body_field"
  req_user_id :: nat

text \<open>
  The validators of the route that can reject a typed request: \<open>order_type\<close> is one of
  three values, \<open>items\<close> has at least one element, every \<open>quantity\<close> is at least 1.
\<close>

definition order_types :: "string list" where
  "order_types = [''Dine-in'', ''Takeaway'', ''Delivery'']"

definition valid_request :: "order_request \<Rightarrow> bool" where
  "valid_request req \<longleftrightarrow>
     req_order_type req \<in> set order_types \<and> 1 \<le> length (items req) \<and>
     list_all (\<lambda>item. 1 \<le> quantity item) (items req)"

subsection \<open>JavaScript numbers\<close>

text \<open>
  A JavaScript number is an IEEE 754 double. A finite double is held as the rational it
  is, and every arithmetic operation of the route gives the exact result rounded to the
  nearest double, a tie to the even mantissa (\<open>fl\<close>). A double has a mantissa of 53 bits:
  \<open>exponent x\<close> is the power of two of its last mantissa bit, so that \<open>x / 2 ^ e\<close> lies
  between \<open>2 ^ 52\<close> and \<open>2 ^ 53\<close>, and \<open>bits n\<close> is the length of \<open>n\<close> in binary. The
  range of the exponent (overflow beyond \<open>1.8e308\<close>, subnormals below \<open>2.3e-308\<close>) is
  not modelled.
\<close>

definition pow2 :: "int \<Rightarrow> rat" where
  "pow2 e = (if 0 \<le> e then of_int (2 ^ nat e) else 1 / of_int (2 ^ nat (- e)))"

function bits :: "int \<Rightarrow> nat" where
  "bits n = (if n \<le> 0 then 0 else Suc (bits (n div 2)))"
  by pat_completeness auto

termination bits
  by (relation "measure nat") auto

declare bits.simps [simp del]

definition exponent :: "rat \<Rightarrow> int" where
  "exponent x =
     (case quotient_of x of (p, q) \<Rightarrow>
        let e = int (bits p) - int (bits q) - 53
        in if 9007199254740992 \<le> x / pow2 e then e + 1 else e)"

definition nearest_even :: "rat \<Rightarrow> int" where
  "nearest_even y =
     (let n = \<lfloor>y\<rfloor>; r = y - of_int n
      in if r < 1 / 2 then n else if 1 / 2 < r then n + 1 else if even n then n else n + 1)"

definition fl :: "rat \<Rightarrow> rat" where
  "fl x = (if x = 0 then 0
           else let e = exponent \<bar>x\<bar>
                in sgn x * of_int (nearest_even (\<bar>x\<bar> / pow2 e)) * pow2 e)"

definition fadd :: "rat \<Rightarrow> rat \<Rightarrow> rat" where
  "fadd x y = fl (x + y)"

definition fmul :: "rat \<Rightarrow> rat \<Rightarrow> rat" where
  "fmul x y = fl (x * y)"

definition fdiv :: "rat \<Rightarrow> rat \<Rightarrow> rat" where
  "fdiv x y = fl (x / y)"

text \<open>
  The driver hands a \<open>DECIMAL(10,2)\<close> value to the program as its decimal text, which
  the arithmetic of the route turns into the nearest double (\<open>js_number\<close>).

  A number bound to a statement is sent as a double. MySQL stores a double in a
  \<open>DECIMAL(10,2)\<close> column through its shortest decimal text (the text JavaScript prints
  for it), rounded to two fractional digits half away from zero (\<open>store_double\<close>). With
  \<open>k\<close> the hundredths below \<open>\<bar>x\<bar>\<close> and \<open>v\<close> the tie half a hundredth above them, the
  text is at or above the tie when \<open>\<bar>x\<bar>\<close> is, and also when \<open>\<bar>x\<bar>\<close> is the double
  nearest to \<open>v\<close>, whose text is then \<open>v\<close> itself (for amounts below \<open>10 ^ 12\<close>, whose ties
  have at most 15 digits). So 0.425 is stored as 0.43 and 0.42499999999999993 as 0.42.
\<close>

definition js_number :: "decimal2 \<Rightarrow> rat" where
  "js_number c = fl (of_int c / 100)"

definition store_double :: "rat \<Rightarrow> decimal2" where
  "store_double x =
     (let a = \<bar>x\<bar>; k = \<lfloor>a * 100\<rfloor>; v = (of_int k + 1 / 2) / 100;
          c = (if v \<le> a \<or> fl v = a then k + 1 else k)
      in if 0 \<le> x then c else - c)"

subsection \<open>The route\<close>

text \<open>The elements of the array \<open>orderItems\<close> built by the pricing loop.\<close>

record order_line =
  line_menu_item_id :: nat
  line_quantity :: int
  line_unit_price :: decimal2
  line_total_price :: rat
  line_special_instructions :: "string option"

text \<open>
  The pricing loop (\<open>for (const item of items)\<close>): \<open>n\<close> is the index of the iteration;
  \<open>subtotal'\<close> (the variable \<open>subtotal\<close> of the route) and \<open>orderItems\<close> are the two
  variables the loop updates. A missing or unavailable item ends the request with
  status 400. \<open>menuItem.price * item.quantity\<close> multiplies two doubles and
  \<open>subtotal += totalPrice\<close> adds two. \<open>item.special_instructions || null\<close> turns the
  empty text into \<open>NULL\<close>.
\<close>

fun resolve_items ::
  "faults \<Rightarrow> db \<Rightarrow> nat \<Rightarrow> item_request list \<Rightarrow> rat \<Rightarrow> order_line list
     \<Rightarrow> response + rat \<times> order_line list" where
  "resolve_items f d n [] subtotal' orderItems = Inr (subtotal', orderItems)"
| "resolve_items f d n (item # rest) subtotal' orderItems =
     (if f (SelectMenuItem n) then Inl InternalServerError
      else case filter (\<lambda>m. mi_id m = menu_item_id item \<and> mi_is_available m) (menu_items d) of
             [] \<Rightarrow> Inl (MenuItemUnavailable (menu_item_id item))
           | menuItem # _ \<Rightarrow>
               let totalPrice = fmul (js_number (mi_price menuItem)) (fl (of_int (quantity item)))
               in resolve_items f d (Suc n) rest (fadd subtotal' totalPrice)
                    (orderItems @
                       [\<lparr>line_menu_item_id = menu_item_id item,
                         line_quantity = quantity item,
                         line_unit_price = mi_price menuItem,
                         line_total_price = totalPrice,
                         line_special_instructions =
                           (if special_instructions item = Some [] then None
                            else special_instructions item)\<rparr>]))"

text \<open>
  \<open>taxRate\<close>: \<open>parseFloat\<close> of the \<open>tax_rate\<close> setting, the literal 8.5 when the row is
  absent.
\<close>

definition taxRate_of :: "db \<Rightarrow> rat" where
  "taxRate_of d = (case tax_rate d of Some r \<Rightarrow> fl r | None \<Rightarrow> 17 / 2)"

text \<open>
  Lines 469 to 521 of the route: validation, the pricing loop and the totals. The result
  is \<open>(subtotal, taxAmount, totalAmount, orderItems)\<close>. Nothing is written.
\<close>

definition price_order ::
  "faults \<Rightarrow> order_request \<Rightarrow> db \<Rightarrow> response + rat \<times> rat \<times> rat \<times> order_line list" where
  "price_order f req d =
     (if \<not> valid_request req then Inl ValidationFailed
      else case resolve_items f d 0 (items req) 0 [] of
             Inl r \<Rightarrow> Inl r
           | Inr (subtotal', orderItems) \<Rightarrow>
               if f SelectTaxRate then Inl InternalServerError
               else let taxRate = taxRate_of d;
                        taxAmount = fdiv (fmul subtotal' taxRate) 100;
                        totalAmount = fadd subtotal' taxAmount
                    in Inr (subtotal', taxAmount, totalAmount, orderItems))"

text \<open>
  The \<open>INSERT INTO orders\<close> binds \<open>table_id\<close>, \<open>session_id\<close>, \<open>customer_name\<close> and
  \<open>special_instructions\<close> as the body has them. The driver refuses a bind parameter that
  is \<open>undefined\<close> and throws before the statement is sent (\<open>binds_undefined\<close>).
\<close>

definition binds_undefined :: "order_request \<Rightarrow> bool" where
  "binds_undefined req \<longleftrightarrow>
     req_table_id req = Undefined \<or> req_session_id req = Undefined \<or>
     req_customer_name req = Undefined \<or> req_special_instructions req = Undefined"

text \<open>
  \<open>order_values\<close> is the row the insert creates, with the id the counter gives. The
  columns the statement does not name take their defaults: \<open>discount_amount\<close> 0.00,
  \<open>status\<close> \<open>'Pending'\<close>, \<open>payment_status\<close> \<open>'Unpaid'\<close>.
\<close>

definition order_values :: "env \<Rightarrow> order_request \<Rightarrow> rat \<Rightarrow> rat \<Rightarrow> rat \<Rightarrow> nat \<Rightarrow> order_row" where
  "order_values e req subtotal' taxAmount totalAmount insertId =
     \<lparr>o_id = insertId,
      order_number = orderNumber e,
      table_id = (case req_table_id req of Defined t \<Rightarrow> Some t | Undefined \<Rightarrow> None),
      session_id = (case req_session_id req of Defined s \<Rightarrow> s | Undefined \<Rightarrow> None),
      user_id = Some (req_user_id req),
      customer_name = (case req_customer_name req of Defined c \<Rightarrow> Some c | Undefined \<Rightarrow> None),
      order_type = req_order_type req,
      subtotal = store_double subtotal',
      tax_amount = store_double taxAmount,
      discount_amount = 0,
      total_amount = store_double totalAmount,
      o_status = ''Pending'',
      payment_status = ''Unpaid'',
      o_special_instructions =
        (case req_special_instructions req of Defined i \<Rightarrow> i | Undefined \<Rightarrow> None),
      created_by = Some (req_user_id req)\<rparr>"

definition insert_order :: "env \<Rightarrow> order_request \<Rightarrow> rat \<Rightarrow> rat \<Rightarrow> rat \<Rightarrow> db \<Rightarrow> db" where
  "insert_order e req subtotal' taxAmount totalAmount d =
     d\<lparr>orders := orders d @
          [order_values e req subtotal' taxAmount totalAmount (next_order_id d)],
       next_order_id := Suc (next_order_id d)\<rparr>"

definition insert_order_item :: "nat \<Rightarrow> order_line \<Rightarrow> db \<Rightarrow> db" where
  "insert_order_item orderId item d =
     d\<lparr>order_items := order_items d @
          [\<lparr>oi_id = next_order_item_id d,
            oi_order_id = orderId,
            oi_menu_item_id = line_menu_item_id item,
            oi_quantity = line_quantity item,
            unit_price = line_unit_price item,
            total_price = store_double (line_total_price item),
            oi_special_instructions = line_special_instructions item,
            oi_status = ''Pending''\<rparr>],
       next_order_item_id := Suc (next_order_item_id d)\<rparr>"

text \<open>The loop \<open>for (const item of orderItems)\<close>; \<open>False\<close> when a statement threw.\<close>

fun insert_order_items :: "faults \<Rightarrow> nat \<Rightarrow> nat \<Rightarrow> order_line list \<Rightarrow> db \<Rightarrow> bool \<times> db" where
  "insert_order_items f orderId n [] d = (True, d)"
| "insert_order_items f orderId n (item # rest) d =
     (if f (InsertOrderItem n) then (False, d)
      else insert_order_items f orderId (Suc n) rest (insert_order_item orderId item d))"

text \<open>
  Lines 523 to 546: the order row and its items. \<open>order_number\<close> is \<open>UNIQUE\<close>, so the
  insert is refused when the number is taken. The result is the new order id, or \<open>None\<close>
  when a statement threw, with the state of the open transaction.
\<close>

definition write_order ::
  "faults \<Rightarrow> env \<Rightarrow> order_request \<Rightarrow> rat \<Rightarrow> rat \<Rightarrow> rat \<Rightarrow> order_line list \<Rightarrow> db
     \<Rightarrow> nat option \<times> db" where
  "write_order f e req subtotal' taxAmount totalAmount orderItems d =
     (if binds_undefined req \<or> f InsertOrder \<or>
         orderNumber e \<in> set (map order_number (orders d)) then (None, d)
      else let orderId = next_order_id d;
               d1 = insert_order e req subtotal' taxAmount totalAmount d
           in case insert_order_items f orderId 0 orderItems d1 of
                (False, d2) \<Rightarrow> (None, d2)
              | (True, d2) \<Rightarrow> (Some orderId, d2))"

text \<open>The category classifier (lines 551 to 569).\<close>

definition foodCategories :: "string list" where
  "foodCategories = [''Food'']"

definition drinkCategories :: "string list" where
  "drinkCategories = [''Drinks'', ''Beverages'']"

definition itemCategories :: "db \<Rightarrow> nat list \<Rightarrow> string list" where
  "itemCategories d ids =
     remdups [c_name c. mi \<leftarrow> menu_items d, mi_id mi \<in> set ids,
                        sc \<leftarrow> subcategories d, mi_subcategory_id mi = sc_id sc,
                        c \<leftarrow> categories d, sc_category_id sc = c_id c]"

definition categoryType :: "string list \<Rightarrow> string" where
  "categoryType cats =
     (if list_all (\<lambda>cat. cat \<in> set foodCategories) cats then ''Food''
      else if list_all (\<lambda>cat. cat \<in> set drinkCategories) cats then ''Beverages''
      else ''Mixed'')"

definition kot_values :: "env \<Rightarrow> nat \<Rightarrow> string \<Rightarrow> nat \<Rightarrow> kot_row" where
  "kot_values e orderId ctype insertId =
     \<lparr>k_id = insertId,
      kot_number = kotNumber e,
      k_order_id = orderId,
      printer_id = None,
      category_type = ctype,
      k_status = ''Pending'',
      printed_at = None,
      completed_at = None\<rparr>"

definition insert_kot :: "env \<Rightarrow> nat \<Rightarrow> string \<Rightarrow> db \<Rightarrow> db" where
  "insert_kot e orderId ctype d =
     d\<lparr>kots := kots d @ [kot_values e orderId ctype (next_kot_id d)],
       next_kot_id := Suc (next_kot_id d)\<rparr>"

definition insert_kot_item :: "nat \<Rightarrow> order_item_row \<Rightarrow> string \<Rightarrow> db \<Rightarrow> db" where
  "insert_kot_item kotId orderItem name d =
     d\<lparr>kot_items := kot_items d @
          [\<lparr>ki_id = next_kot_item_id d,
            ki_kot_id = kotId,
            ki_order_item_id = oi_id orderItem,
            menu_item_name = name,
            ki_quantity = oi_quantity orderItem,
            ki_special_instructions = oi_special_instructions orderItem,
            ki_status = ''Pending''\<rparr>],
       next_kot_item_id := Suc (next_kot_item_id d)\<rparr>"

text \<open>
  The loop \<open>for (const orderItem of createdOrderItems)\<close>. Reading \<open>menuItem[0].name\<close>
  of an empty result throws a \<open>TypeError\<close>.
\<close>

fun insert_kot_items :: "faults \<Rightarrow> nat \<Rightarrow> nat \<Rightarrow> order_item_row list \<Rightarrow> db \<Rightarrow> bool \<times> db" where
  "insert_kot_items f kotId n [] d = (True, d)"
| "insert_kot_items f kotId n (orderItem # rest) d =
     (if f (SelectMenuItemName n) then (False, d)
      else case filter (\<lambda>m. mi_id m = oi_menu_item_id orderItem) (menu_items d) of
             [] \<Rightarrow> (False, d)
           | menuItem # _ \<Rightarrow>
               if f (InsertKotItem n) then (False, d)
               else insert_kot_items f kotId (Suc n) rest
                      (insert_kot_item kotId orderItem (mi_name menuItem) d))"

text \<open>
  Lines 548 to 600: the ticket, its items and the commit. \<open>kot_number\<close> is \<open>UNIQUE\<close>.
  The result is the new ticket id, or \<open>None\<close> when a statement threw.
\<close>

definition write_kot :: "faults \<Rightarrow> env \<Rightarrow> order_request \<Rightarrow> nat \<Rightarrow> db \<Rightarrow> nat option \<times> db" where
  "write_kot f e req orderId d =
     (if f SelectItemCategories then (None, d)
      else let cats = itemCategories d (map menu_item_id (items req)) in
        if f InsertKot \<or> kotNumber e \<in> set (map kot_number (kots d)) then (None, d)
        else let kotId = next_kot_id d;
                 d1 = insert_kot e orderId (categoryType cats) d
             in if f SelectOrderItems then (None, d1)
                else let createdOrderItems =
                           filter (\<lambda>oi. oi_order_id oi = orderId) (order_items d1)
                     in case insert_kot_items f kotId 0 createdOrderItems d1 of
                          (False, d2) \<Rightarrow> (None, d2)
                        | (True, d2) \<Rightarrow> if f Commit then (None, d2) else (Some kotId, d2))"

text \<open>
  The transaction of the route, from \<open>beginTransaction\<close> to \<open>commit\<close>. \<open>Inl\<close> is the
  answer of a request that did not commit, \<open>Inr (orderId, kotId, totalAmount)\<close> are the
  values of a request that did; the second component is the state of the connection's
  transaction at that point.
\<close>

definition create_order_tx ::
  "faults \<Rightarrow> env \<Rightarrow> order_request \<Rightarrow> db \<Rightarrow> (response + nat \<times> nat \<times> rat) \<times> db" where
  "create_order_tx f e req d =
     (if f BeginTransaction then (Inl InternalServerError, d)
      else case price_order f req d of
             Inl r \<Rightarrow> (Inl r, d)
           | Inr (subtotal', taxAmount, totalAmount, orderItems) \<Rightarrow>
               (case write_order f e req subtotal' taxAmount totalAmount orderItems d of
                  (None, d1) \<Rightarrow> (Inl InternalServerError, d1)
                | (Some orderId, d1) \<Rightarrow>
                    (case write_kot f e req orderId d1 of
                       (None, d2) \<Rightarrow> (Inl InternalServerError, d2)
                     | (Some kotId, d2) \<Rightarrow> (Inr (orderId, kotId, totalAmount), d2))))"

text \<open>
  \<open>connection.rollback()\<close>: the rows written by the open transaction are discarded.
  The transaction writes to four tables. The \<open>AUTO_INCREMENT\<close> counters are not
  transactional and keep the values they reached.
\<close>

definition rollback :: "db \<Rightarrow> db \<Rightarrow> db" where
  "rollback d0 d =
     d\<lparr>orders := orders d0, order_items := order_items d0,
       kots := kots d0, kot_items := kot_items d0\<rparr>"

text \<open>
  The whole route. Every path that leaves the transaction without a commit calls
  \<open>rollback\<close> (the two early returns and the outer \<open>catch\<close>). After the commit the
  auto-print setting is read on the pool; a throw there reaches the outer \<open>catch\<close>,
  whose \<open>rollback\<close> finds nothing to undo. \<open>printKOT\<close> runs inside its own \<open>try\<close>, whose
  \<open>catch\<close> only logs, so the call contributes its state and not its result.
\<close>

definition create_order :: "faults \<Rightarrow> env \<Rightarrow> order_request \<Rightarrow> db \<Rightarrow> response \<times> db" where
  "create_order f e req d =
     (case create_order_tx f e req d of
        (Inl r, d1) \<Rightarrow> (r, rollback d d1)
      | (Inr (orderId, kotId, totalAmount), d1) \<Rightarrow>
          if f SelectAutoPrint then (InternalServerError, d1)
          else (Created orderId (orderNumber e) (kotNumber e) totalAmount,
                if kot_auto_print d1 = Some ''true'' then snd (printKOT f e kotId d1) else d1))"

section \<open>A sample database\<close>

text \<open>
  A small instance used to run the operations: three menu items (one of them
  unavailable) in the seeded categories \<open>Food\<close> and \<open>Drinks\<close>, tax rate 8.5, auto-print
  on, one Kitchen printer, and one order with its ticket of three lines, two of them
  \<open>Ready\<close>.
\<close>

definition demo_db :: db where
  "demo_db =
     \<lparr>menu_items =
        [\<lparr>mi_id = 1, mi_subcategory_id = 1, mi_name = ''Margherita'', mi_price = 10000,
          mi_is_available = True\<rparr>,
         \<lparr>mi_id = 2, mi_subcategory_id = 6, mi_name = ''Cola'', mi_price = 250,
          mi_is_available = True\<rparr>,
         \<lparr>mi_id = 3, mi_subcategory_id = 2, mi_name = ''Burger'', mi_price = 999,
          mi_is_available = False\<rparr>],
      subcategories =
        [\<lparr>sc_id = 1, sc_category_id = 1\<rparr>, \<lparr>sc_id = 2, sc_category_id = 1\<rparr>,
         \<lparr>sc_id = 6, sc_category_id = 2\<rparr>],
      categories = [\<lparr>c_id = 1, c_name = ''Food''\<rparr>, \<lparr>c_id = 2, c_name = ''Drinks''\<rparr>],
      tax_rate = Some (17 / 2),
      kot_auto_print = Some ''true'',
      orders =
        [\<lparr>o_id = 1, order_number = ''ORD-1-1'', table_id = None, session_id = None,
          user_id = Some 1, customer_name = None, order_type = ''Dine-in'',
          subtotal = 20500, tax_amount = 1743, discount_amount = 0, total_amount = 22243,
          o_status = ''Preparing'', payment_status = ''Unpaid'',
          o_special_instructions = None, created_by = Some 1\<rparr>],
      order_items =
        [\<lparr>oi_id = 1, oi_order_id = 1, oi_menu_item_id = 1, oi_quantity = 1,
          unit_price = 10000, total_price = 10000, oi_special_instructions = None,
          oi_status = ''Pending''\<rparr>,
         \<lparr>oi_id = 2, oi_order_id = 1, oi_menu_item_id = 2, oi_quantity = 2,
          unit_price = 250, total_price = 500, oi_special_instructions = None,
          oi_status = ''Pending''\<rparr>,
         \<lparr>oi_id = 3, oi_order_id = 1, oi_menu_item_id = 1, oi_quantity = 1,
          unit_price = 10000, total_price = 10000, oi_special_instructions = None,
          oi_status = ''Pending''\<rparr>],
      kots =
        [\<lparr>k_id = 1, kot_number = ''KOT-1-1'', k_order_id = 1, printer_id = None,
          category_type = ''Mixed'', k_status = ''Preparing'', printed_at = None,
          completed_at = None\<rparr>],
      kot_items =
        [\<lparr>ki_id = 1, ki_kot_id = 1, ki_order_item_id = 1, menu_item_name = ''Margherita'',
          ki_quantity = 1, ki_special_instructions = None, ki_status = ''Ready''\<rparr>,
         \<lparr>ki_id = 2, ki_kot_id = 1, ki_order_item_id = 2, menu_item_name = ''Cola'',
          ki_quantity = 2, ki_special_instructions = None, ki_status = ''Ready''\<rparr>,
         \<lparr>ki_id = 3, ki_kot_id = 1, ki_order_item_id = 3, menu_item_name = ''Margherita'',
          ki_quantity = 1, ki_special_instructions = None, ki_status = ''Served''\<rparr>],
      printers =
        [\<lparr>p_id = 1, p_type = ''Kitchen'', is_active = True, is_online = True,
          last_test_print = None\<rparr>],
      printer_category_mappings = [],
      next_order_id = 2, next_order_item_id = 4, next_kot_id = 2, next_kot_item_id = 4\<rparr>"

definition no_faults :: faults where
  "no_faults = (\<lambda>_. False)"

text \<open>An environment whose printer driver reports every printer as not connected.\<close>

definition demo_env :: env where
  "demo_env =
     \<lparr>clock = 42, orderNumber = ''ORD-2-7'', kotNumber = ''KOT-2-9'',
      isPrinterConnected = (\<lambda>_. False), execute_returns = (\<lambda>_. True)\<rparr>"

text \<open>An environment whose driver is connected and throws in \<open>execute\<close> (a timeout).\<close>

definition timeout_env :: env where
  "timeout_env =
     demo_env\<lparr>isPrinterConnected := (\<lambda>_. True), execute_returns := (\<lambda>_. False)\<rparr>"

text \<open>
  A request with every field of the body present: table 4, no session, one Margherita.
\<close>

definition demo_request :: order_request where
  "demo_request =
     \<lparr>req_table_id = Defined 4, req_session_id = Defined None,
      req_customer_name = Defined ''Ada'', req_order_type = ''Dine-in'',
      items = [\<lparr>menu_item_id = 1, quantity = 1, special_instructions = None\<rparr>],
      req_special_instructions = Defined None, req_user_id = 1\<rparr>"

text \<open>The lines of a ticket, and whether all of them are \<open>Ready\<close>.\<close>

definition kot_lines :: "db \<Rightarrow> nat \<Rightarrow> kot_item_row list" where
  "kot_lines d kotId = filter (\<lambda>i. ki_kot_id i = kotId) (kot_items d)"

definition all_lines_ready :: "db \<Rightarrow> nat \<Rightarrow> bool" where
  "all_lines_ready d kotId = list_all (\<lambda>i. ki_status i = ''Ready'') (kot_lines d kotId)"

text \<open>The sample database with its ticket already \<open>Ready\<close>.\<close>

definition ready_ticket_db :: db where
  "ready_ticket_db =
     demo_db\<lparr>kots := map (\<lambda>k. k\<lparr>k_status := ''Ready'', completed_at := Some 40\<rparr>) (kots demo_db)\<rparr>"

section \<open>Observations used to state the properties of order creation\<close>

text \<open>
  \<open>available d item\<close>: the menu item the request line names exists and is available.
  \<open>priced d item l\<close>: \<open>l\<close> is the element the pricing loop builds for \<open>item\<close>.
  \<open>line_double oi\<close>: the double \<open>menuItem.price * item.quantity\<close> of the order item
  \<open>oi\<close>, and \<open>subtotal_double ois\<close>: the double the pricing loop accumulates over the
  order items \<open>ois\<close>, starting from 0.
  \<open>order_line_row d orderId item oi\<close>: \<open>oi\<close> is the order-item row of the request line
  \<open>item\<close>. \<open>ticket_line_row d kotId oi ki\<close>: \<open>ki\<close> is the ticket line of the order item
  \<open>oi\<close>.
\<close>

definition available :: "db \<Rightarrow> item_request \<Rightarrow> bool" where
  "available d item =
     list_ex (\<lambda>m. mi_id m = menu_item_id item \<and> mi_is_available m) (menu_items d)"

definition priced :: "db \<Rightarrow> item_request \<Rightarrow> order_line \<Rightarrow> bool" where
  "priced d item l \<longleftrightarrow>
     line_menu_item_id l = menu_item_id item \<and>
     line_quantity l = quantity item \<and>
     line_total_price l = fmul (js_number (line_unit_price l)) (fl (of_int (quantity item))) \<and>
     list_ex (\<lambda>m. mi_id m = menu_item_id item \<and> mi_is_available m \<and>
                   mi_price m = line_unit_price l) (menu_items d) \<and>
     line_special_instructions l =
       (if special_instructions item = Some [] then None else special_instructions item)"

definition line_double :: "order_item_row \<Rightarrow> rat" where
  "line_double oi = fmul (js_number (unit_price oi)) (fl (of_int (oi_quantity oi)))"

definition subtotal_double :: "order_item_row list \<Rightarrow> rat" where
  "subtotal_double ois = foldl fadd 0 (map line_double ois)"

definition order_line_row :: "db \<Rightarrow> nat \<Rightarrow> item_request \<Rightarrow> order_item_row \<Rightarrow> bool" where
  "order_line_row d orderId item oi \<longleftrightarrow>
     oi_order_id oi = orderId \<and>
     oi_menu_item_id oi = menu_item_id item \<and>
     oi_quantity oi = quantity item \<and>
     list_ex (\<lambda>m. mi_id m = menu_item_id item \<and> mi_is_available m \<and>
                   mi_price m = unit_price oi) (menu_items d) \<and>
     total_price oi = store_double (line_double oi) \<and>
     oi_status oi = ''Pending''"

definition ticket_line_row :: "db \<Rightarrow> nat \<Rightarrow> order_item_row \<Rightarrow> kot_item_row \<Rightarrow> bool" where
  "ticket_line_row d kotId oi ki \<longleftrightarrow>
     ki_kot_id ki = kotId \<and>
     ki_order_item_id ki = oi_id oi \<and>
     ki_quantity ki = oi_quantity oi \<and>
     ki_special_instructions ki = oi_special_instructions oi \<and>
     list_ex (\<lambda>m. mi_id m = oi_menu_item_id oi \<and> mi_name m = menu_item_name ki)
             (menu_items d) \<and>
     ki_status ki = ''Pending''"

text \<open>
  \<open>steps_succeed\<close>: every step of the transaction goes through. The request is valid
  and has its four optional fields, every item is available, the two generated numbers
  are not taken, and no statement from \<open>beginTransaction\<close> to \<open>commit\<close> throws.
\<close>

definition loop_faults :: "faults \<Rightarrow> nat \<Rightarrow> bool" where
  "loop_faults f n =
     list_ex (\<lambda>i. f (SelectMenuItem i) \<or> f (InsertOrderItem i) \<or>
                   f (SelectMenuItemName i) \<or> f (InsertKotItem i)) [0..<n]"

definition steps_succeed :: "faults \<Rightarrow> env \<Rightarrow> order_request \<Rightarrow> db \<Rightarrow> bool" where
  "steps_succeed f e req d \<longleftrightarrow>
     valid_request req \<and>
     \<not> binds_undefined req \<and>
     list_all (available d) (items req) \<and>
     orderNumber e \<notin> set (map order_number (orders d)) \<and>
     kotNumber e \<notin> set (map kot_number (kots d)) \<and>
     \<not> f BeginTransaction \<and> \<not> f SelectTaxRate \<and> \<not> f InsertOrder \<and>
     \<not> f SelectItemCategories \<and> \<not> f InsertKot \<and> \<not> f SelectOrderItems \<and> \<not> f Commit \<and>
     \<not> loop_faults f (length (items req))"

text \<open>
  \<open>fresh_order_id\<close>: no order item refers to the id the next order receives. Foreign
  keys and the counter guarantee it in the running system.
\<close>

definition fresh_order_id :: "db \<Rightarrow> bool" where
  "fresh_order_id d = list_all (\<lambda>oi. oi_order_id oi \<noteq> next_order_id d) (order_items d)"

text \<open>\<open>fresh_kot_id\<close>: no ticket has the id the next ticket receives (\<open>id\<close> is the primary key).\<close>

definition fresh_kot_id :: "db \<Rightarrow> bool" where
  "fresh_kot_id d = list_all (\<lambda>k. k_id k \<noteq> next_kot_id d) (kots d)"

text \<open>
  The invariants of the stored prices and of the tax rate. \<open>menu_items.price\<close> is written
  only by \<open>POST /items\<close> and \<open>PUT /items/:id\<close>, both behind \<open>isFloat({ min: 0 })\<close>, so no
  price is negative (\<open>prices_valid\<close>). No route writes the \<open>tax_rate\<close> setting, seeded
  with 8.5; \<open>rate_valid\<close> asks only that a configured rate is a percentage between 0
  and 100. \<open>configured_rate\<close> is the rate itself, 8.5 when none is configured.
\<close>

definition prices_valid :: "db \<Rightarrow> bool" where
  "prices_valid d = list_all (\<lambda>m. 0 \<le> mi_price m) (menu_items d)"

definition rate_valid :: "db \<Rightarrow> bool" where
  "rate_valid d = (case tax_rate d of None \<Rightarrow> True | Some x \<Rightarrow> 0 \<le> x \<and> x \<le> 100)"

definition configured_rate :: "db \<Rightarrow> rat" where
  "configured_rate d = (case tax_rate d of Some x \<Rightarrow> x | None \<Rightarrow> 17 / 2)"

text \<open>
  The sizes a request can have. The body parser of the server accepts at most 10 MB
  (\<open>express.json({ limit: '10mb' })\<close>) and a request line takes at least 32 bytes of it,
  so a request has fewer than 330 000 lines (\<open>max_lines\<close>). An amount column is a
  \<open>DECIMAL(10,2)\<close> and holds less than \<open>10 ^ 8\<close>, that is \<open>10 ^ 10\<close> hundredths
  (\<open>max_amount\<close>). \<open>lines_amount ois\<close> is the sum of unit price times quantity over the
  order items \<open>ois\<close>, in hundredths.
\<close>

definition max_lines :: nat where
  "max_lines = 330000"

definition max_amount :: int where
  "max_amount = 10000000000"

definition lines_amount :: "order_item_row list \<Rightarrow> int" where
  "lines_amount ois = sum_list (map (\<lambda>oi. unit_price oi * oi_quantity oi) ois)"


text \<open>
  The category names of a set of menu items, as the schema relates them: the name of
  the category of the subcategory of each item.
\<close>

definition category_names :: "db \<Rightarrow> nat set \<Rightarrow> string set" where
  "category_names d ids =
     {c_name c | mi sc c.
        mi \<in> set (menu_items d) \<and> mi_id mi \<in> ids \<and>
        sc \<in> set (subcategories d) \<and> sc_id sc = mi_subcategory_id mi \<and>
        c \<in> set (categories d) \<and> c_id c = sc_category_id sc}"

text \<open>The sample database without any printer, and requests for other items.\<close>

definition no_printer_db :: db where
  "no_printer_db = demo_db\<lparr>printers := []\<rparr>"

definition cola_request :: order_request where
  "cola_request =
     demo_request\<lparr>items := [\<lparr>menu_item_id = 2, quantity = 2, special_instructions = None\<rparr>]\<rparr>"

definition mixed_request :: order_request where
  "mixed_request =
     demo_request\<lparr>items := [\<lparr>menu_item_id = 2, quantity = 1, special_instructions = None\<rparr>,
                             \<lparr>menu_item_id = 1, quantity = 1, special_instructions = None\<rparr>,
                             \<lparr>menu_item_id = 2, quantity = 1, special_instructions = None\<rparr>]\<rparr>"

text \<open>A fault schedule in which the insert of the first ticket line throws.\<close>

definition kot_item_fault :: faults where
  "kot_item_fault = (\<lambda>s. s = InsertKotItem 0)"

text \<open>A fault schedule in which the read of the auto-print setting throws.\<close>

definition setting_read_fault :: faults where
  "setting_read_fault = (\<lambda>s. s = SelectAutoPrint)"

text \<open>
  The sample database with two menu items priced 0.02 and 1.66, and a request for one
  of the first and three of the second.
\<close>

definition small_price_db :: db where
  "small_price_db =
     demo_db\<lparr>menu_items :=
       [\<lparr>mi_id = 1, mi_subcategory_id = 1, mi_name = ''Olive'', mi_price = 2,
         mi_is_available = True\<rparr>,
        \<lparr>mi_id = 2, mi_subcategory_id = 1, mi_name = ''Bread'', mi_price = 166,
         mi_is_available = True\<rparr>]\<rparr>"

definition small_price_request :: order_request where
  "small_price_request =
     demo_request\<lparr>items := [\<lparr>menu_item_id = 1, quantity = 1, special_instructions = None\<rparr>,
                             \<lparr>menu_item_id = 2, quantity = 3, special_instructions = None\<rparr>]\<rparr>"

section \<open>Properties of the status updates\<close>

lemma all_lines_ready_count:
  "all_lines_ready d kotId \<longleftrightarrow>
     length (filter (\<lambda>i. ki_kot_id i = kotId \<and> ki_status i \<noteq> ''Ready'') (kot_items d)) = 0"
  by (induction "kot_items d" arbitrary: d) (auto simp: all_lines_ready_def kot_lines_def list_all_iff filter_empty_conv)

lemma update_kot_item_status_unfold:
  "update_kot_item_status f e kotId itemId status d =
     (if status \<notin> set kot_item_statuses then (ValidationFailed, d)
      else if f UpdateKotItem then (InternalServerError, d)
      else
        let d1 = d\<lparr>kot_items :=
                   map (\<lambda>i. if ki_id i = itemId \<and> ki_kot_id i = kotId
                             then i\<lparr>ki_status := status\<rparr> else i)
                       (kot_items d)\<rparr>
        in if status = ''Ready''
           then (if f CountNotReady then (InternalServerError, d1)
                 else if all_lines_ready d1 kotId
                 then (if f UpdateKotReady then (InternalServerError, d1)
                       else (Success,
                             d1\<lparr>kots :=
                                  map (\<lambda>k. if k_id k = kotId
                                            then k\<lparr>k_status := ''Ready'',
                                                   completed_at := Some (clock e)\<rparr>
                                            else k)
                                      (kots d1)\<rparr>))
                 else (Success, d1))
           else (Success, d1))"
  by (simp only: update_kot_item_status_def all_lines_ready_count)

lemma update_kot_item_status_lines:
  assumes "status \<in> set kot_item_statuses" and "\<not> f UpdateKotItem"
  shows "kot_items (snd (update_kot_item_status f e kotId itemId status d)) =
           map (\<lambda>i. if ki_id i = itemId \<and> ki_kot_id i = kotId then i\<lparr>ki_status := status\<rparr> else i)
               (kot_items d)"
  using assms by (simp add: update_kot_item_status_def Let_def)

lemma not_ready_line_blocks:
  assumes "status \<noteq> ''Ready''"
      and "list_ex (\<lambda>i. ki_id i = itemId \<and> ki_kot_id i = kotId) xs"
  shows "\<not> list_all (\<lambda>i. ki_status i = ''Ready'')
             (filter (\<lambda>i. ki_kot_id i = kotId)
                (map (\<lambda>i. if ki_id i = itemId \<and> ki_kot_id i = kotId
                          then i\<lparr>ki_status := status\<rparr> else i) xs))"
  using assms by (induction xs) auto

text \<open>
  C9. Each of the three status updates (order, ticket, ticket line) rejects a status
  outside its list of values before any statement is sent: the answer is 400 and the
  database is unchanged. A status inside the list is accepted whatever the row holds:
  when no statement of the update throws, the answer is success and the addressed row
  has the requested status. No comparison with the current status is made, so a ticket
  that is \<open>Ready\<close> can be set back to \<open>Pending\<close>.
\<close>

theorem status_updates_check_value_set_only:
  "(status \<notin> set order_statuses \<longrightarrow>
      update_order_status f orderId status d = (ValidationFailed, d)) \<and>
   (status \<notin> set kot_statuses \<longrightarrow>
      update_kot_status f e kotId status d = (ValidationFailed, d)) \<and>
   (status \<notin> set kot_item_statuses \<longrightarrow>
      update_kot_item_status f e kotId itemId status d = (ValidationFailed, d)) \<and>
   (status \<in> set order_statuses \<and> \<not> f UpdateOrderStatus \<longrightarrow>
      fst (update_order_status f orderId status d) = Success \<and>
      map o_status (orders (snd (update_order_status f orderId status d))) =
        map (\<lambda>r. if o_id r = orderId then status else o_status r) (orders d)) \<and>
   (status \<in> set kot_statuses \<and> \<not> f UpdateKot \<and> \<not> f UpdateKotItems \<longrightarrow>
      fst (update_kot_status f e kotId status d) = Success \<and>
      map k_status (kots (snd (update_kot_status f e kotId status d))) =
        map (\<lambda>k. if k_id k = kotId then status else k_status k) (kots d)) \<and>
   (status \<in> set kot_item_statuses \<and> \<not> f UpdateKotItem \<and> \<not> f CountNotReady \<and>
    \<not> f UpdateKotReady \<longrightarrow>
      fst (update_kot_item_status f e kotId itemId status d) = Success \<and>
      map ki_status (kot_items (snd (update_kot_item_status f e kotId itemId status d))) =
        map (\<lambda>i. if ki_id i = itemId \<and> ki_kot_id i = kotId then status else ki_status i)
            (kot_items d))"
proof (intro conjI impI)
  show "update_order_status f orderId status d = (ValidationFailed, d)"
    if "status \<notin> set order_statuses"
    using that by (simp add: update_order_status_def)
  show "update_kot_status f e kotId status d = (ValidationFailed, d)"
    if "status \<notin> set kot_statuses"
    using that by (simp add: update_kot_status_def)
  show "update_kot_item_status f e kotId itemId status d = (ValidationFailed, d)"
    if "status \<notin> set kot_item_statuses"
    using that by (simp add: update_kot_item_status_def)
next
  assume "status \<in> set order_statuses \<and> \<not> f UpdateOrderStatus"
  then show "fst (update_order_status f orderId status d) = Success"
    and "map o_status (orders (snd (update_order_status f orderId status d))) =
           map (\<lambda>r. if o_id r = orderId then status else o_status r) (orders d)"
    by (simp_all add: update_order_status_def comp_def if_distrib cong: if_cong)
next
  assume "status \<in> set kot_statuses \<and> \<not> f UpdateKot \<and> \<not> f UpdateKotItems"
  then show "fst (update_kot_status f e kotId status d) = Success"
    and "map k_status (kots (snd (update_kot_status f e kotId status d))) =
           map (\<lambda>k. if k_id k = kotId then status else k_status k) (kots d)"
    by (simp_all add: update_kot_status_def Let_def comp_def if_distrib cong: if_cong)
next
  assume "status \<in> set kot_item_statuses \<and> \<not> f UpdateKotItem \<and> \<not> f CountNotReady \<and>
    \<not> f UpdateKotReady"
  then show "fst (update_kot_item_status f e kotId itemId status d) = Success"
    and "map ki_status (kot_items (snd (update_kot_item_status f e kotId itemId status d))) =
        map (\<lambda>i. if ki_id i = itemId \<and> ki_kot_id i = kotId then status else ki_status i)
            (kot_items d)"
    by (simp_all add: update_kot_item_status_def Let_def comp_def if_distrib cong: if_cong)
qed

theorem status_updates_check_value_set_only_witness:
  "''Pending'' \<in> set kot_statuses \<and> \<not> no_faults UpdateKot \<and> \<not> no_faults UpdateKotItems \<and>
   map k_status (kots ready_ticket_db) = [''Ready''] \<and>
   fst (update_kot_status no_faults demo_env 1 ''Pending'' ready_ticket_db) = Success \<and>
   map k_status (kots (snd (update_kot_status no_faults demo_env 1 ''Pending'' ready_ticket_db))) =
     [''Pending''] \<and>
   ''Done'' \<notin> set order_statuses \<and>
   update_order_status no_faults 1 ''Done'' demo_db = (ValidationFailed, demo_db) \<and>
   ''Printed'' \<notin> set kot_item_statuses \<and>
   update_kot_item_status no_faults demo_env 1 3 ''Printed'' demo_db = (ValidationFailed, demo_db) \<and>
   ''Completed'' \<notin> set kot_statuses \<and>
   update_kot_status no_faults demo_env 1 ''Completed'' demo_db = (ValidationFailed, demo_db)"
  using status_updates_check_value_set_only
          [of "''Pending''" no_faults 1 demo_db demo_env 1 1]
        status_updates_check_value_set_only
          [of "''Done''" no_faults 1 demo_db demo_env 1 3]
        status_updates_check_value_set_only
          [of "''Printed''" no_faults 1 demo_db demo_env 1 3]
        status_updates_check_value_set_only
          [of "''Completed''" no_faults 1 demo_db demo_env 1 3]
  by (simp add: order_statuses_def kot_statuses_def kot_item_statuses_def no_faults_def
        ready_ticket_db_def demo_db_def update_kot_status_def)

text \<open>
  C10. Setting a ticket's status to \<open>Ready\<close> also sets the status of every line of that
  ticket to \<open>Ready\<close>, whatever it was (a \<open>Served\<close> line becomes \<open>Ready\<close> again), and sets
  the ticket's \<open>completed_at\<close>. For every other accepted status the lines of the ticket
  are left as they are.
\<close>

theorem kot_ready_overwrites_all_lines:
  assumes "status \<in> set kot_statuses" and "\<not> f UpdateKot" and "\<not> f UpdateKotItems"
  shows "fst (update_kot_status f e kotId status d) = Success \<and>
         (status = ''Ready'' \<longrightarrow>
            kot_items (snd (update_kot_status f e kotId status d)) =
              map (\<lambda>i. if ki_kot_id i = kotId then i\<lparr>ki_status := ''Ready''\<rparr> else i)
                  (kot_items d) \<and>
            kots (snd (update_kot_status f e kotId status d)) =
              map (\<lambda>k. if k_id k = kotId
                        then k\<lparr>k_status := ''Ready'', completed_at := Some (clock e)\<rparr> else k)
                  (kots d)) \<and>
         (status \<noteq> ''Ready'' \<longrightarrow>
            kot_items (snd (update_kot_status f e kotId status d)) = kot_items d)"
proof (cases "status = ''Ready''")
  case True
  with assms show ?thesis
    by (simp add: update_kot_status_def Let_def)
next
  case False
  with assms show ?thesis
    by (simp add: update_kot_status_def Let_def)
qed

theorem kot_ready_overwrites_all_lines_witness:
  "''Ready'' \<in> set kot_statuses \<and> \<not> no_faults UpdateKot \<and> \<not> no_faults UpdateKotItems \<and>
   map ki_status (kot_items demo_db) = [''Ready'', ''Ready'', ''Served''] \<and>
   fst (update_kot_status no_faults demo_env 1 ''Ready'' demo_db) = Success \<and>
   map ki_status (kot_items (snd (update_kot_status no_faults demo_env 1 ''Ready'' demo_db))) =
     [''Ready'', ''Ready'', ''Ready''] \<and>
   map completed_at (kots (snd (update_kot_status no_faults demo_env 1 ''Ready'' demo_db))) =
     [Some 42] \<and>
   ''Served'' \<in> set kot_statuses \<and>
   kot_items (snd (update_kot_status no_faults demo_env 1 ''Served'' demo_db)) = kot_items demo_db"
proof -
  have a: "''Ready'' \<in> set kot_statuses" and b: "''Served'' \<in> set kot_statuses"
    by (simp_all add: kot_statuses_def)
  have n: "\<not> no_faults UpdateKot" "\<not> no_faults UpdateKotItems"
    by (simp_all add: no_faults_def)
  show ?thesis
    using kot_ready_overwrites_all_lines [OF a n, of demo_env 1 demo_db]
          kot_ready_overwrites_all_lines [OF b n, of demo_env 1 demo_db] a b n
    by (simp add: demo_db_def demo_env_def)
qed

text \<open>
  An update that names no line of the ticket and whose status is not \<open>Ready\<close> changes
  nothing.
\<close>

lemma update_kot_item_status_no_line:
  assumes "status \<in> set kot_item_statuses" and "status \<noteq> ''Ready''"
      and "\<not> f UpdateKotItem"
      and "\<not> list_ex (\<lambda>i. ki_id i = itemId \<and> ki_kot_id i = kotId) (kot_items d)"
  shows "update_kot_item_status f e kotId itemId status d = (Success, d)"
proof -
  have "map (\<lambda>i. if ki_id i = itemId \<and> ki_kot_id i = kotId then i\<lparr>ki_status := status\<rparr> else i)
            (kot_items d) = kot_items d"
    using assms(4) by (intro map_idI) (auto simp: list_ex_iff)
  with assms(1-3) show ?thesis
    by (simp add: update_kot_item_status_def Let_def)
qed

text \<open>
  C2. A ticket-line status update after which all lines of the ticket are \<open>Ready\<close> sets
  the ticket to \<open>Ready\<close> with \<open>completed_at\<close> set to the current time; when some line of
  the ticket is not \<open>Ready\<close> after the update, the ticket rows are unchanged. The update
  is one that sets a line to \<open>Ready\<close> or addresses a line that exists in the ticket, and
  none of its statements throws.
\<close>

theorem kot_item_ready_cascade:
  assumes "status \<in> set kot_item_statuses"
      and "\<not> f UpdateKotItem" and "\<not> f CountNotReady" and "\<not> f UpdateKotReady"
      and "status = ''Ready'' \<or> list_ex (\<lambda>i. ki_id i = itemId \<and> ki_kot_id i = kotId) (kot_items d)"
  shows "fst (update_kot_item_status f e kotId itemId status d) = Success \<and>
         (if all_lines_ready (snd (update_kot_item_status f e kotId itemId status d)) kotId
          then kots (snd (update_kot_item_status f e kotId itemId status d)) =
                 map (\<lambda>k. if k_id k = kotId
                           then k\<lparr>k_status := ''Ready'', completed_at := Some (clock e)\<rparr> else k)
                     (kots d)
          else kots (snd (update_kot_item_status f e kotId itemId status d)) = kots d)"
proof (cases "status = ''Ready''")
  case True
  let ?d1 = "d\<lparr>kot_items :=
                 map (\<lambda>i. if ki_id i = itemId \<and> ki_kot_id i = kotId
                           then i\<lparr>ki_status := ''Ready''\<rparr> else i) (kot_items d)\<rparr>"
  have run: "update_kot_item_status f e kotId itemId status d =
               (Success,
                if all_lines_ready ?d1 kotId
                then ?d1\<lparr>kots :=
                        map (\<lambda>k. if k_id k = kotId
                                  then k\<lparr>k_status := ''Ready'', completed_at := Some (clock e)\<rparr>
                                  else k) (kots ?d1)\<rparr>
                else ?d1)"
    using True assms(1-4)
    by (simp add: update_kot_item_status_unfold Let_def)
  have same: "all_lines_ready (?d1\<lparr>kots := ks\<rparr>) kotId = all_lines_ready ?d1 kotId" for ks
    by (simp add: all_lines_ready_def kot_lines_def)
  show ?thesis
    unfolding run by (simp add: same)
next
  case False
  with assms(5) have ex: "list_ex (\<lambda>i. ki_id i = itemId \<and> ki_kot_id i = kotId) (kot_items d)"
    by simp
  have "\<not> all_lines_ready (snd (update_kot_item_status f e kotId itemId status d)) kotId"
    using not_ready_line_blocks [OF False ex] assms(1,2)
    by (simp add: all_lines_ready_def kot_lines_def update_kot_item_status_lines)
  with False assms(1-4) show ?thesis
    by (simp add: update_kot_item_status_def Let_def)
qed

theorem kot_item_ready_cascade_witness:
  "''Ready'' \<in> set kot_item_statuses \<and> ''Preparing'' \<in> set kot_item_statuses \<and>
   \<not> no_faults UpdateKotItem \<and> \<not> no_faults CountNotReady \<and> \<not> no_faults UpdateKotReady \<and>
   list_ex (\<lambda>i. ki_id i = 1 \<and> ki_kot_id i = 1) (kot_items demo_db) \<and>
   map ki_status (kot_lines demo_db 1) = [''Ready'', ''Ready'', ''Served''] \<and>
   map k_status (kots demo_db) = [''Preparing''] \<and>
   all_lines_ready (snd (update_kot_item_status no_faults demo_env 1 3 ''Ready'' demo_db)) 1 \<and>
   map k_status (kots (snd (update_kot_item_status no_faults demo_env 1 3 ''Ready'' demo_db))) =
     [''Ready''] \<and>
   map completed_at (kots (snd (update_kot_item_status no_faults demo_env 1 3 ''Ready'' demo_db))) =
     [Some 42] \<and>
   \<not> all_lines_ready (snd (update_kot_item_status no_faults demo_env 1 1 ''Preparing'' demo_db)) 1 \<and>
   kots (snd (update_kot_item_status no_faults demo_env 1 1 ''Preparing'' demo_db)) = kots demo_db"
proof -
  have a: "''Ready'' \<in> set kot_item_statuses" and b: "''Preparing'' \<in> set kot_item_statuses"
    by (simp_all add: kot_item_statuses_def)
  have n: "\<not> no_faults UpdateKotItem" "\<not> no_faults CountNotReady" "\<not> no_faults UpdateKotReady"
    by (simp_all add: no_faults_def)
  have x: "list_ex (\<lambda>i. ki_id i = 1 \<and> ki_kot_id i = 1) (kot_items demo_db)"
    by (simp add: demo_db_def)
  have r3: "all_lines_ready (snd (update_kot_item_status no_faults demo_env 1 3 ''Ready'' demo_db)) 1"
    by (simp add: update_kot_item_status_unfold kot_item_statuses_def no_faults_def
          all_lines_ready_def kot_lines_def demo_db_def Let_def)
  have r1: "\<not> all_lines_ready (snd (update_kot_item_status no_faults demo_env 1 1 ''Preparing'' demo_db)) 1"
    by (simp add: update_kot_item_status_unfold kot_item_statuses_def no_faults_def
          all_lines_ready_def kot_lines_def demo_db_def Let_def)
  have s: "map ki_status (kot_lines demo_db 1) = [''Ready'', ''Ready'', ''Served'']"
          "map k_status (kots demo_db) = [''Preparing'']"
          "map completed_at (kots demo_db) = [None]"
    by (simp_all add: kot_lines_def demo_db_def)
  have e: "clock demo_env = 42"
    by (simp add: demo_env_def)
  have k3: "kots (snd (update_kot_item_status no_faults demo_env 1 3 ''Ready'' demo_db)) =
              map (\<lambda>k. if k_id k = 1 then k\<lparr>k_status := ''Ready'', completed_at := Some 42\<rparr> else k)
                  (kots demo_db)"
    using kot_item_ready_cascade [OF a n, where kotId = 1 and itemId = 3 and d = demo_db and e = demo_env] r3 e by simp
  have k1: "kots (snd (update_kot_item_status no_faults demo_env 1 1 ''Preparing'' demo_db)) =
              kots demo_db"
    using kot_item_ready_cascade [OF b n, where kotId = 1 and itemId = 1 and d = demo_db and e = demo_env] r1 x by simp
  have k3': "map k_status (kots (snd (update_kot_item_status no_faults demo_env 1 3 ''Ready'' demo_db))) = [''Ready'']"
     "map completed_at (kots (snd (update_kot_item_status no_faults demo_env 1 3 ''Ready'' demo_db))) = [Some 42]"
    unfolding k3 by (simp_all add: demo_db_def)
  show ?thesis
    using a b n x s r3 r1 k3' k1 by simp
qed

text \<open>
  The order-status update sends one \<open>UPDATE orders\<close> and reads no ticket. In the sample
  database order 1 has a ticket that is \<open>Preparing\<close>; the request to complete the order
  is accepted and the order becomes \<open>Completed\<close>.
\<close>

theorem completed_with_active_ticket_counterexample:
  "map k_order_id (kots demo_db) = [1] \<and> map k_status (kots demo_db) = [''Preparing''] \<and>
   map o_status (orders demo_db) = [''Preparing''] \<and>
   fst (update_order_status no_faults 1 ''Completed'' demo_db) = Success \<and>
   map o_status (orders (snd (update_order_status no_faults 1 ''Completed'' demo_db))) =
     [''Completed'']"
  by (simp add: update_order_status_def order_statuses_def no_faults_def demo_db_def)

text \<open>
  C6, as the route behaves. An order-status update whose value is in the list is accepted
  and sets the order's status, \<open>Completed\<close> included, whatever tickets the database
  holds (\<open>ks\<close> is any ticket table): the tickets are neither read nor changed.
\<close>

theorem order_status_update_reads_no_ticket:
  assumes "status \<in> set order_statuses" and "\<not> f UpdateOrderStatus"
  shows "update_order_status f orderId status (d\<lparr>kots := ks\<rparr>) =
           (Success,
            d\<lparr>orders := map (\<lambda>r. if o_id r = orderId then r\<lparr>o_status := status\<rparr> else r) (orders d),
              kots := ks\<rparr>)"
  using assms by (simp add: update_order_status_def)

theorem order_status_update_reads_no_ticket_witness:
  "''Completed'' \<in> set order_statuses \<and> \<not> no_faults UpdateOrderStatus \<and>
   update_order_status no_faults 1 ''Completed'' (demo_db\<lparr>kots := kots demo_db\<rparr>) =
     (Success,
      demo_db\<lparr>orders := map (\<lambda>r. if o_id r = 1 then r\<lparr>o_status := ''Completed''\<rparr> else r)
                           (orders demo_db),
              kots := kots demo_db\<rparr>)"
proof -
  have a: "''Completed'' \<in> set order_statuses"
    by (simp add: order_statuses_def)
  have n: "\<not> no_faults UpdateOrderStatus"
    by (simp add: no_faults_def)
  show ?thesis
    using order_status_update_reads_no_ticket
            [where status = "''Completed''" and f = no_faults and orderId = 1 and d = demo_db
               and ks = "kots demo_db"] a n
    by simp
qed

section \<open>Properties of printing\<close>

lemma printKOT_printers: "printers (snd (printKOT f e kotId d)) = printers d"
  by (simp add: printKOT_def split: sum.splits)

lemma printKOT_failure: "fst (printKOT f e kotId d) = Inl err \<Longrightarrow> snd (printKOT f e kotId d) = d"
  by (auto simp: printKOT_def split: sum.splits if_splits)

lemma printKOT_success:
  "fst (printKOT f e kotId d) = Inr printerId \<Longrightarrow>
   snd (printKOT f e kotId d) =
     d\<lparr>kots := map (\<lambda>k. if k_id k = kotId
                        then k\<lparr>k_status := ''Printed'', printed_at := Some (clock e)\<rparr> else k)
                  (kots d)\<rparr>"
  by (auto simp: printKOT_def split: sum.splits if_splits)

lemma testPrinter_failure_marks_offline:
  assumes "fst (testPrinter f e printerId d) = Inl err" and "\<not> f UpdatePrinterOffline"
  shows "printers (snd (testPrinter f e printerId d)) =
           map (\<lambda>p. if p_id p = printerId then p\<lparr>is_online := False\<rparr> else p) (printers d)"
  using assms by (auto simp: testPrinter_def Let_def split: sum.splits if_splits)

text \<open>
  C8. When the dispatch of a ticket fails (the printer is not connected, or the driver
  throws on a timeout or a connection error), the ticket is unchanged, and the printer's
  \<open>is_online\<close> flag should become false. In the sample database ticket 1 is routed to
  printer 1. With a driver that reports the printer as not connected, and with a driver
  that throws in \<open>execute\<close>, \<open>printKOT\<close> fails and returns the database as it was, with
  printer 1 still online. \<open>testPrinter\<close> on the same printer does mark it offline.
\<close>

theorem printKOT_not_connected_leaves_printer_online:
  "select_printer no_faults 1 demo_db = Inr 1 \<and>
   \<not> isPrinterConnected demo_env 1 \<and>
   printKOT no_faults demo_env 1 demo_db = (Inl PrinterNotConnected, demo_db) \<and>
   printKOT no_faults timeout_env 1 demo_db = (Inl DriverFailure, demo_db) \<and>
   map is_online (printers (snd (printKOT no_faults demo_env 1 demo_db))) = [True] \<and>
   map is_online (printers (snd (printKOT no_faults timeout_env 1 demo_db))) = [True] \<and>
   fst (testPrinter no_faults demo_env 1 demo_db) = Inl PrinterNotConnected \<and>
   map is_online (printers (snd (testPrinter no_faults demo_env 1 demo_db))) = [False]"
  by (simp add: printKOT_def testPrinter_def select_printer_def mapped_printers_def
        default_printers_def kotData_def initializePrinter_def no_faults_def demo_db_def
        demo_env_def timeout_env_def)

section \<open>Properties of order creation\<close>

subsection \<open>Rounding to a double\<close>

text \<open>
  The model of rounding is accurate to half a unit of the last mantissa bit: the rounded
  value differs from the exact one by at most its \<open>2 ^ 53\<close>th part.
\<close>

lemma bits_bounds: "0 < n \<Longrightarrow> n < 2 ^ bits n \<and> 2 ^ bits n \<le> 2 * n"
proof (induction n rule: bits.induct)
  case (1 n)
  show ?case
  proof (cases "n div 2 \<le> 0")
    case True
    with 1(2) have "n = 1" by linarith
    have "bits 1 = Suc (bits 0)" by (subst bits.simps) simp
    also have "bits 0 = 0" by (subst bits.simps) simp
    finally show ?thesis using \<open>n = 1\<close> by simp
  next
    case False
    hence m: "0 < n div 2" by simp
    from 1(1) 1(2) m have IH: "n div 2 < 2 ^ bits (n div 2) \<and> 2 ^ bits (n div 2) \<le> 2 * (n div 2)"
      by simp
    have b: "bits n = Suc (bits (n div 2))" using 1(2) by (subst bits.simps) simp
    have "n \<le> 2 * (n div 2) + 1" "2 * (n div 2) \<le> n" by linarith+
    with IH show ?thesis unfolding b by simp
  qed
qed

lemma pow2_powi: "pow2 e = 2 powi e"
  by (simp add: pow2_def power_int_def power_divide)

lemma pow2_pos: "0 < pow2 e"
  by (simp add: pow2_powi)

lemma pow2_Suc: "pow2 (e + 1) = 2 * pow2 e"
  by (simp add: pow2_powi power_int_add)

lemma exponent_lower:
  assumes "0 < x"
  shows "4503599627370496 * pow2 (exponent x) \<le> x"
proof -
  obtain p q where pq: "quotient_of x = (p, q)" by (cases "quotient_of x")
  have q: "0 < q" using pq by (rule quotient_of_denom_pos)
  have x: "x = of_int p / of_int q" using pq by (rule quotient_of_div)
  have p: "0 < p" using assms q unfolding x by (simp add: zero_less_divide_iff)
  define e where "e = int (bits p) - int (bits q) - 53"
  have pe: "0 < pow2 e" by (rule pow2_pos)
  have "(of_int (2 ^ bits p) :: rat) \<le> of_int (2 * p)"
    using bits_bounds [OF p] by (simp only: of_int_le_iff)
  hence bp: "(2::rat) ^ bits p \<le> 2 * of_int p" by simp
  have "(of_int q :: rat) < of_int (2 ^ bits q)"
    using bits_bounds [OF q] by (simp only: of_int_less_iff)
  hence bq: "(of_int q :: rat) < 2 ^ bits q" by simp
  have "pow2 e * 2 ^ bits q = 2 powi (e + int (bits q))"
    by (simp add: pow2_powi power_int_add)
  also have "e + int (bits q) = int (bits p) + (- 53)" by (simp add: e_def)
  also have "(2::rat) powi (int (bits p) + (- 53)) = 2 powi int (bits p) * 2 powi (- 53)"
    by (rule power_int_add) simp
  also have "\<dots> = 2 ^ bits p / 9007199254740992" by (simp add: power_int_minus)
  finally have c: "pow2 e * 2 ^ bits q = 2 ^ bits p / 9007199254740992" .
  have "4503599627370496 * pow2 e * of_int q \<le> 4503599627370496 * pow2 e * 2 ^ bits q"
    using bq pe by (intro mult_left_mono) simp_all
  also have "\<dots> = 4503599627370496 * (pow2 e * 2 ^ bits q)" by simp
  also have "\<dots> = 2 ^ bits p / 2" unfolding c by simp
  also have "\<dots> \<le> of_int p" using bp by simp
  finally have "4503599627370496 * pow2 e * of_int q \<le> of_int p" .
  hence low: "4503599627370496 * pow2 e \<le> x"
    using q unfolding x by (simp add: pos_le_divide_eq)
  have ex: "exponent x = (if 9007199254740992 \<le> x / pow2 e then e + 1 else e)"
    by (simp add: exponent_def pq e_def Let_def)
  show ?thesis
  proof (cases "9007199254740992 \<le> x / pow2 e")
    case True
    hence "9007199254740992 * pow2 e \<le> x" using pe by (simp add: pos_le_divide_eq)
    thus ?thesis using True by (simp add: ex pow2_Suc)
  next
    case False
    thus ?thesis using low by (simp add: ex)
  qed
qed

lemma nearest_even_error: "\<bar>of_int (nearest_even y) - y\<bar> \<le> 1 / 2"
proof -
  have "of_int \<lfloor>y\<rfloor> \<le> y" "y < of_int \<lfloor>y\<rfloor> + 1" by linarith+
  thus ?thesis unfolding nearest_even_def Let_def by (auto split: if_splits)
qed

lemma nearest_even_nonneg: "0 \<le> y \<Longrightarrow> 0 \<le> nearest_even y"
proof -
  assume "0 \<le> y"
  hence "0 \<le> \<lfloor>y\<rfloor>" by simp
  thus ?thesis unfolding nearest_even_def Let_def by (auto split: if_splits)
qed

lemma fl_error: "\<bar>fl x - x\<bar> \<le> \<bar>x\<bar> / 9007199254740992"
proof (cases "x = 0")
  case True
  then show ?thesis by (simp add: fl_def)
next
  case False
  define e where "e = exponent \<bar>x\<bar>"
  define y where "y = \<bar>x\<bar> / pow2 e"
  define m where "m = nearest_even y"
  have pe: "0 < pow2 e" by (rule pow2_pos)
  have fx: "fl x = sgn x * of_int m * pow2 e"
    using False by (simp add: fl_def Let_def e_def y_def m_def)
  have x: "x = sgn x * (y * pow2 e)"
    using pe by (simp add: y_def sgn_mult_abs)
  have "fl x - x = sgn x * pow2 e * (of_int m - y)"
    by (subst (2) x) (simp add: fx algebra_simps)
  hence "\<bar>fl x - x\<bar> = pow2 e * \<bar>of_int m - y\<bar>"
    using False pe by (simp add: abs_mult abs_sgn_eq)
  also have "\<dots> \<le> pow2 e * (1 / 2)"
    using nearest_even_error [of y] pe unfolding m_def by (intro mult_left_mono) simp_all
  also have "\<dots> \<le> \<bar>x\<bar> / 9007199254740992"
    using exponent_lower [of "\<bar>x\<bar>"] False unfolding e_def by simp
  finally show ?thesis .
qed

lemma fl_nonneg: "0 \<le> x \<Longrightarrow> 0 \<le> fl x"
  using nearest_even_nonneg [of "\<bar>x\<bar> / pow2 (exponent \<bar>x\<bar>)"] pow2_pos [of "exponent \<bar>x\<bar>"]
  by (simp add: fl_def Let_def zero_le_mult_iff zero_le_divide_iff less_imp_le)

subsection \<open>Accumulated rounding errors of the pricing loop\<close>

lemma fl_close: "\<bar>x\<bar> \<le> b \<Longrightarrow> \<bar>fl x - x\<bar> \<le> b / 9007199254740992"
proof -
  assume "\<bar>x\<bar> \<le> b"
  hence "\<bar>x\<bar> / 9007199254740992 \<le> b / 9007199254740992" by simp
  with fl_error [of x] show ?thesis by linarith
qed

lemma mul_close:
  fixes a b :: rat
  assumes "0 \<le> a" "0 \<le> b" "\<bar>a' - a\<bar> \<le> a * \<alpha>" "\<bar>b' - b\<bar> \<le> b * \<beta>"
  shows "\<bar>a' * b' - a * b\<bar> \<le> a * b * (\<alpha> + \<beta> + \<alpha> * \<beta>)"
proof -
  have e: "a' * b' - a * b = (a' - a) * b + a * (b' - b) + (a' - a) * (b' - b)"
    by (simp add: algebra_simps)
  have 1: "\<bar>(a' - a) * b\<bar> \<le> a * \<alpha> * b"
    using assms(2,3) by (simp add: abs_mult mult_right_mono)
  have 2: "\<bar>a * (b' - b)\<bar> \<le> a * (b * \<beta>)"
    using assms(1,4) by (simp add: abs_mult mult_left_mono)
  have 3: "\<bar>(a' - a) * (b' - b)\<bar> \<le> (a * \<alpha>) * (b * \<beta>)"
    unfolding abs_mult using assms(3,4) by (intro mult_mono) simp_all
  have "\<bar>a' * b' - a * b\<bar> \<le> a * \<alpha> * b + a * (b * \<beta>) + (a * \<alpha>) * (b * \<beta>)"
    unfolding e using 1 2 3 by linarith
  also have "\<dots> = a * b * (\<alpha> + \<beta> + \<alpha> * \<beta>)" by (simp add: algebra_simps)
  finally show ?thesis .
qed

lemma line_close:
  assumes "0 \<le> p" "0 \<le> q"
  shows "\<bar>fmul (js_number p) (fl (of_int q)) - of_int (p * q) / 100\<bar>
           \<le> of_int (p * q) / 100 / 2251799813685248"
proof -
  define a :: rat where "a = of_int p / 100"
  define b :: rat where "b = of_int q"
  define t where "t = a * b"
  have a0: "0 \<le> a" and b0: "0 \<le> b" using assms by (simp_all add: a_def b_def)
  have t0: "0 \<le> t" using a0 b0 by (simp add: t_def)
  have ea: "\<bar>fl a - a\<bar> \<le> a * (1 / 9007199254740992)" using fl_error [of a] a0 by simp
  have eb: "\<bar>fl b - b\<bar> \<le> b * (1 / 9007199254740992)" using fl_error [of b] b0 by simp
  from mul_close [OF a0 b0 ea eb]
  have m: "\<bar>fl a * fl b - t\<bar> \<le> t * (18014398509481985 / 81129638414606681695789005144064)"
    by (simp add: t_def)
  define g where "g = t * (18014398509481985 / 81129638414606681695789005144064)"
  have m': "\<bar>fl a * fl b - t\<bar> \<le> g" using m by (simp only: g_def)
  hence "\<bar>fl a * fl b\<bar> \<le> t + g" using t0 by linarith
  from fl_close [OF this]
  have r: "\<bar>fl (fl a * fl b) - fl a * fl b\<bar> \<le> (t + g) / 9007199254740992" .
  have "(t + g) / 9007199254740992 + g
          = t * (243388915243820072108964779655169 / 730750818665451459101842416358141509827966271488)"
    by (simp add: g_def algebra_simps)
  also have "\<dots> \<le> t * (1 / 2251799813685248)"
    using t0 by (intro mult_left_mono) simp_all
  finally have "(t + g) / 9007199254740992 + g \<le> t / 2251799813685248" by simp
  with m' r have "\<bar>fl (fl a * fl b) - t\<bar> \<le> t / 2251799813685248" by linarith
  thus ?thesis by (simp add: fmul_def js_number_def a_def b_def t_def)
qed

lemma line_nonneg: "0 \<le> p \<Longrightarrow> 0 \<le> q \<Longrightarrow> 0 \<le> fmul (js_number p) (fl (of_int q))"
  by (simp add: fmul_def js_number_def fl_nonneg)

lemma close_lines_nonneg:
  "list_all2 (\<lambda>t c. 0 \<le> c \<and> P t c) ts cs \<Longrightarrow> 0 \<le> sum_list (cs :: int list)"
  by (induction ts cs rule: list_all2_induct) simp_all

lemma foldl_fadd_close:
  assumes "list_all2 (\<lambda>t c. 0 \<le> c \<and> \<bar>t - of_int c / 100\<bar> \<le> of_int c / 100 / 2251799813685248) ts cs"
      and "0 \<le> e" and "e + sum_list cs \<le> 10000000000" and "k + length ts \<le> 330000"
      and "\<bar>s - of_int e / 100\<bar>
             \<le> of_nat k * (100000001 / 9007199254740992) + of_int e / 100 / 2251799813685248"
  shows "\<bar>foldl fadd s ts - of_int (e + sum_list cs) / 100\<bar>
           \<le> of_nat (k + length ts) * (100000001 / 9007199254740992)
              + of_int (e + sum_list cs) / 100 / 2251799813685248"
  using assms
proof (induction ts cs arbitrary: s e k rule: list_all2_induct)
  case Nil
  then show ?case by simp
next
  case (Cons t ts c cs)
  from Cons.hyps(1) have c0: "0 \<le> c"
    and tc: "\<bar>t - of_int c / 100\<bar> \<le> of_int c / 100 / 2251799813685248" by simp_all
  have r0: "0 \<le> sum_list cs" using Cons.hyps(2) by (rule close_lines_nonneg)
  define e1 where "e1 = e + c"
  have e1: "0 \<le> e1" "e1 \<le> 10000000000" "e1 + sum_list cs \<le> 10000000000"
    using Cons.prems(1,2) c0 r0 by (simp_all add: e1_def)
  define A :: rat where "A = of_int e / 100"
  define C :: rat where "C = of_int c / 100"
  define K :: rat where "K = of_nat k * (100000001 / 9007199254740992)"
  have e1r: "(of_int e1 :: rat) / 100 = A + C" by (simp add: e1_def A_def C_def add_divide_distrib)
  have AC: "0 \<le> A + C" "A + C \<le> 100000000"
    using e1(1,2) unfolding e1r [symmetric] by simp_all
  have kb: "K \<le> 330000 * (100000001 / 9007199254740992)" "0 \<le> K"
    unfolding K_def using Cons.prems(3) by (intro mult_right_mono) simp_all
  have p4: "\<bar>s - A\<bar> \<le> K + A / 2251799813685248"
    using Cons.prems(4) by (simp only: A_def K_def)
  have tc': "\<bar>t - C\<bar> \<le> C / 2251799813685248"
    using tc by (simp only: C_def)
  have d: "\<bar>s + t - (A + C)\<bar> \<le> K + (A + C) / 2251799813685248"
  proof -
    have "(A + C) / 2251799813685248 = A / 2251799813685248 + C / 2251799813685248"
      by (rule add_divide_distrib)
    with p4 tc' show ?thesis by linarith
  qed
  have "K \<le> 1 / 2" using kb(1) by simp
  moreover have "(A + C) / 2251799813685248 \<le> 1 / 2" using AC(2) by simp
  ultimately have "\<bar>s + t\<bar> \<le> 100000001" using d AC by linarith
  from fl_close [OF this] have "\<bar>fadd s t - (s + t)\<bar> \<le> 100000001 / 9007199254740992"
    by (simp add: fadd_def)
  with d have "\<bar>fadd s t - (A + C)\<bar>
             \<le> (K + 100000001 / 9007199254740992) + (A + C) / 2251799813685248"
    by linarith
  moreover have "K + 100000001 / 9007199254740992 = of_nat (Suc k) * (100000001 / 9007199254740992)"
    by (simp add: K_def algebra_simps)
  ultimately have n: "\<bar>fadd s t - of_int e1 / 100\<bar>
             \<le> of_nat (Suc k) * (100000001 / 9007199254740992)
                + of_int e1 / 100 / 2251799813685248"
    by (simp only: e1r)
  have k1: "Suc k + length ts \<le> 330000" using Cons.prems(3) by simp
  from Cons.IH [OF e1(1) e1(3) k1 n]
  have "\<bar>foldl fadd (fadd s t) ts - of_int (e1 + sum_list cs) / 100\<bar>
           \<le> of_nat (Suc k + length ts) * (100000001 / 9007199254740992)
              + of_int (e1 + sum_list cs) / 100 / 2251799813685248" .
  thus ?case by (simp add: e1_def add.assoc)
qed

lemma foldl_fadd_nonneg:
  "0 \<le> s \<Longrightarrow> list_all (\<lambda>t. 0 \<le> t) ts \<Longrightarrow> 0 \<le> foldl fadd s ts"
  by (induction ts arbitrary: s) (simp_all add: fadd_def fl_nonneg)

lemma subtotal_close:
  assumes "list_all2 (\<lambda>t c. 0 \<le> c \<and> \<bar>t - of_int c / 100\<bar> \<le> of_int c / 100 / 2251799813685248) ts cs"
      and "sum_list cs \<le> 10000000000" and "length ts \<le> 330000"
  shows "\<bar>foldl fadd 0 ts - of_int (sum_list cs) / 100\<bar> \<le> 1 / 250"
proof -
  have "\<bar>foldl fadd 0 ts - of_int (0 + sum_list cs) / 100\<bar>
           \<le> of_nat (0 + length ts) * (100000001 / 9007199254740992)
              + of_int (0 + sum_list cs) / 100 / 2251799813685248"
    using assms by (intro foldl_fadd_close) simp_all
  moreover have "(of_nat (length ts) :: rat) \<le> 330000" using assms(3) by simp
  moreover have "(of_int (sum_list cs) :: rat) \<le> 10000000000" using assms(2) by simp
  ultimately show ?thesis by simp
qed

subsection \<open>Stored amounts\<close>

lemma store_double_nonneg_unfold:
  "0 \<le> x \<Longrightarrow> store_double x =
     (if (of_int \<lfloor>x * 100\<rfloor> + 1 / 2) / 100 \<le> x \<or> fl ((of_int \<lfloor>x * 100\<rfloor> + 1 / 2) / 100) = x
      then \<lfloor>x * 100\<rfloor> + 1 else \<lfloor>x * 100\<rfloor>)"
  by (simp add: store_double_def Let_def)

lemma store_nonneg: "0 \<le> x \<Longrightarrow> 0 \<le> store_double x"
proof -
  assume x: "0 \<le> x"
  hence "0 \<le> \<lfloor>x * 100\<rfloor>" by simp
  thus ?thesis unfolding store_double_nonneg_unfold [OF x] by simp
qed

lemma store_exact:
  assumes x: "0 \<le> x" and c: "0 \<le> c" "c \<le> 100000000000"
      and n: "\<bar>x - of_int c / 100\<bar> \<le> 49 / 10000"
  shows "store_double x = c"
proof (cases "of_int c \<le> x * 100")
  case True
  have k: "\<lfloor>x * 100\<rfloor> = c" using True n by (intro floor_unique) linarith+
  define v :: rat where "v = (of_int c + 1 / 2) / 100"
  have cr: "0 \<le> (of_int c :: rat)" "(of_int c :: rat) \<le> 100000000000"
    using c by simp_all
  have ve: "v = of_int c / 100 + 1 / 200" by (simp add: v_def add_divide_distrib)
  have v: "x + 1 / 10000 \<le> v" "0 \<le> v" "v \<le> 1000000001"
    using n cr unfolding ve by linarith+
  have "\<bar>fl v - v\<bar> \<le> 1000000001 / 9007199254740992"
    using v(2,3) by (intro fl_close) simp
  hence "fl v \<noteq> x" using v(1) by linarith
  moreover have "\<not> v \<le> x" using v(1) by linarith
  ultimately show ?thesis
    unfolding store_double_nonneg_unfold [OF x] k v_def [symmetric] by simp
next
  case False
  have k: "\<lfloor>x * 100\<rfloor> = c - 1"
  proof (rule floor_unique)
    have "(of_int (c - 1) :: rat) = of_int c - 1" by simp
    thus "of_int (c - 1) \<le> x * 100" using n by linarith
    show "x * 100 < of_int (c - 1) + 1" using False by simp
  qed
  have "((of_int (c - 1) :: rat) + 1 / 2) / 100 = of_int c / 100 - 1 / 200"
    by (simp add: field_simps)
  hence "(of_int (c - 1) + 1 / 2) / 100 \<le> x" using n by linarith
  thus ?thesis
    unfolding store_double_nonneg_unfold [OF x] k by simp
qed

lemma store_near:
  assumes x: "0 \<le> x" "x \<le> 1000000000"
  shows "\<bar>of_int (store_double x) - x * 100\<bar> \<le> 1 / 2 + 1 / 1000"
proof -
  define k where "k = \<lfloor>x * 100\<rfloor>"
  define v :: rat where "v = (of_int k + 1 / 2) / 100"
  have k: "of_int k \<le> x * 100" "x * 100 < of_int k + 1" unfolding k_def by linarith+
  have s: "store_double x = (if v \<le> x \<or> fl v = x then k + 1 else k)"
    unfolding store_double_nonneg_unfold [OF x(1)] k_def v_def by simp
  have vb3: "v * 100 = of_int k + 1 / 2" by (simp add: v_def)
  have "0 \<le> k" using x(1) by (simp add: k_def)
  hence k0: "0 \<le> (of_int k :: rat)" by simp
  have vb12: "0 \<le> v" "v \<le> 1000000001"
    using k x vb3 k0 by linarith+
  note vb = vb12 vb3
  have "\<bar>fl v - v\<bar> \<le> 1000000001 / 9007199254740992"
    using vb(1,2) by (intro fl_close) simp
  hence e: "fl v = x \<Longrightarrow> \<bar>x - v\<bar> \<le> 1 / 1000000" by linarith
  show ?thesis
  proof (cases "v \<le> x")
    case True
    thus ?thesis using k vb(3) by (simp add: s; linarith?)
  next
    case False
    show ?thesis
    proof (cases "fl v = x")
      case True
      from e [OF True] have "\<bar>x - v\<bar> \<le> 1 / 1000000" .
      thus ?thesis using k vb(3) True by (simp add: s; linarith?)
    next
      case f: False
      thus ?thesis using False k vb(3) by (simp add: s; linarith?)
    qed
  qed
qed

lemma tax_close:
  assumes "0 \<le> S" and "\<bar>S - A\<bar> \<le> 1 / 250" and "0 \<le> A" and "A \<le> 100000000"
      and "0 \<le> x" and "x \<le> 100" and "0 \<le> R" and "\<bar>R - x\<bar> \<le> x / 9007199254740992"
  shows "\<bar>fdiv (fmul S R) 100 - A * x / 100\<bar> \<le> x / 25000 + 1 / 10000000"
    and "0 \<le> fdiv (fmul S R) 100"
proof -
  have Rb: "R \<le> x + 1 / 1000000" "R \<le> 101" using assms(5,6,8) by linarith+
  have Sb: "S \<le> 100000001" using assms(2,4) by linarith
  have e: "S * R - A * x = (S - A) * R + A * (R - x)" by (simp add: algebra_simps)
  have 1: "\<bar>(S - A) * R\<bar> \<le> 1 / 250 * (x + 1 / 1000000)"
    unfolding abs_mult using assms(2,7) Rb(1) by (intro mult_mono) simp_all
  have "\<bar>A * (R - x)\<bar> \<le> 100000000 * (x / 9007199254740992)"
    unfolding abs_mult using assms(3,4,8) by (intro mult_mono) simp_all
  also have "\<dots> \<le> 100000000 * (100 / 9007199254740992)"
    using assms(6) by simp
  finally have 2: "\<bar>A * (R - x)\<bar> \<le> 100000000 * (100 / 9007199254740992)" .
  define P1 where "P1 = (S - A) * R"
  define P2 where "P2 = A * (R - x)"
  have "\<bar>P1\<bar> \<le> x / 250 + 1 / 250000000" using 1 by (simp add: P1_def algebra_simps)
  moreover have "\<bar>P2\<bar> \<le> 1 / 800000" using 2 by (simp add: P2_def)
  ultimately have "\<bar>P1 + P2\<bar> \<le> x / 250 + 1 / 500000" by linarith
  hence 3: "\<bar>S * R - A * x\<bar> \<le> x / 250 + 1 / 500000"
    unfolding e P1_def P2_def .
  have "S * R \<le> 100000001 * 101" using Sb Rb(2) assms(1,7) by (intro mult_mono) simp_all
  moreover have "0 \<le> S * R" using assms(1,7) by simp
  ultimately have "\<bar>S * R\<bar> \<le> 10100000101" by simp
  from fl_close [OF this] have 4: "\<bar>fmul S R - S * R\<bar> \<le> 10100000101 / 9007199254740992"
    by (simp add: fmul_def)
  hence "\<bar>fmul S R\<bar> \<le> 10100000200" using \<open>\<bar>S * R\<bar> \<le> 10100000101\<close> by linarith
  moreover have "\<bar>fmul S R / 100\<bar> = \<bar>fmul S R\<bar> / 100" by simp
  ultimately have "\<bar>fmul S R / 100\<bar> \<le> 101000002" by linarith
  from fl_close [OF this]
  have 5: "\<bar>fdiv (fmul S R) 100 - fmul S R / 100\<bar> \<le> 101000002 / 9007199254740992"
    by (simp add: fdiv_def)
  have "A * x / 100 = (A * x) / 100" by simp
  define P where "P = S * R"
  define Q where "Q = A * x"
  define M where "M = fmul S R"
  define T where "T = fdiv (fmul S R) 100"
  have "\<bar>P - Q\<bar> \<le> x / 250 + 1 / 500000" using 3 by (simp only: P_def Q_def)
  moreover have "\<bar>M - P\<bar> \<le> 10100000101 / 9007199254740992" using 4 by (simp only: P_def M_def)
  moreover have "\<bar>T - M / 100\<bar> \<le> 101000002 / 9007199254740992" using 5 by (simp only: T_def M_def)
  ultimately have "\<bar>T - Q / 100\<bar> \<le> x / 25000 + 1 / 10000000" by linarith
  thus "\<bar>fdiv (fmul S R) 100 - A * x / 100\<bar> \<le> x / 25000 + 1 / 10000000"
    by (simp only: T_def Q_def)
  show "0 \<le> fdiv (fmul S R) 100"
    using assms(1,7) by (simp add: fdiv_def fmul_def fl_nonneg)
qed

lemma total_close:
  assumes "0 \<le> S" "S \<le> 100000001" "0 \<le> T" "T \<le> 100000001"
  shows "\<bar>fadd S T - (S + T)\<bar> \<le> 1 / 10000000" and "0 \<le> fadd S T"
proof -
  have "\<bar>S + T\<bar> \<le> 200000002" using assms by linarith
  from fl_close [OF this] show "\<bar>fadd S T - (S + T)\<bar> \<le> 1 / 10000000"
    by (simp add: fadd_def)
  show "0 \<le> fadd S T" using assms(1,3) by (simp add: fadd_def fl_nonneg)
qed

lemma stored_total_tolerance:
  assumes "0 \<le> S" "S \<le> 100000001" "0 \<le> T" "T \<le> 100000001"
  shows "\<bar>store_double (fadd S T) - (store_double S + store_double T)\<bar> \<le> 1"
proof -
  note t = total_close [OF assms]
  have b: "fadd S T \<le> 1000000000" using t(1) assms by linarith
  have 1: "\<bar>of_int (store_double (fadd S T)) - fadd S T * 100\<bar> \<le> 1 / 2 + 1 / 1000"
    using t(2) b by (rule store_near)
  have 2: "\<bar>of_int (store_double S) - S * 100\<bar> \<le> 1 / 2 + 1 / 1000"
    using assms(1,2) by (intro store_near) simp_all
  have 3: "\<bar>of_int (store_double T) - T * 100\<bar> \<le> 1 / 2 + 1 / 1000"
    using assms(3,4) by (intro store_near) simp_all
  have "\<bar>(of_int (store_double (fadd S T)) :: rat)
          - (of_int (store_double S) + of_int (store_double T))\<bar> < 2"
    using 1 2 3 t(1) by linarith
  hence "\<bar>(of_int (store_double (fadd S T) - (store_double S + store_double T)) :: rat)\<bar> < 2"
    by simp
  hence "\<bar>store_double (fadd S T) - (store_double S + store_double T)\<bar> < 2"
    by (metis of_int_abs of_int_less_iff of_int_numeral)
  thus ?thesis by simp
qed

subsection \<open>The pricing loop\<close>

lemma filter_Cons_member:
  assumes "filter P xs = m # rest"
  shows "m \<in> set xs \<and> P m"
proof -
  have "m \<in> set (filter P xs)"
    by (simp add: assms)
  then show ?thesis
    by simp
qed

lemma upt_add_Cons: "[n..<n + length (x # xs)] = n # [Suc n..<Suc n + length xs]"
  by (simp add: upt_conv_Cons del: upt_Suc)

lemma resolve_items_Inr:
  "resolve_items f d n its s acc = Inr (s', ls) \<Longrightarrow>
     \<exists>new. ls = acc @ new \<and> list_all2 (priced d) its new \<and>
           s' = foldl fadd s (map line_total_price new) \<and>
           list_all (available d) its \<and>
           \<not> list_ex (\<lambda>i. f (SelectMenuItem i)) [n..<n + length its]"
proof (induction its arbitrary: n s acc)
  case Nil
  then show ?case by simp
next
  case (Cons item rest)
  from Cons.prems have nf: "\<not> f (SelectMenuItem n)"
    by (simp split: if_splits)
  from Cons.prems nf obtain m ms where
    fm: "filter (\<lambda>m. mi_id m = menu_item_id item \<and> mi_is_available m) (menu_items d) = m # ms"
    by (auto split: list.splits)
  define l where "l =
    \<lparr>line_menu_item_id = menu_item_id item, line_quantity = quantity item,
     line_unit_price = mi_price m,
     line_total_price = fmul (js_number (mi_price m)) (fl (of_int (quantity item))),
     line_special_instructions =
       (if special_instructions item = Some [] then None else special_instructions item)\<rparr>"
  from Cons.prems nf fm have rec:
    "resolve_items f d (Suc n) rest (fadd s (line_total_price l)) (acc @ [l]) = Inr (s', ls)"
    by (simp add: l_def Let_def)
  from Cons.IH [OF rec] obtain new where
    new: "ls = (acc @ [l]) @ new" "list_all2 (priced d) rest new"
         "s' = foldl fadd (fadd s (line_total_price l)) (map line_total_price new)"
         "list_all (available d) rest"
         "\<not> list_ex (\<lambda>i. f (SelectMenuItem i)) [Suc n..<Suc n + length rest]"
    by blast
  from filter_Cons_member [OF fm] have m: "m \<in> set (menu_items d)"
    "mi_id m = menu_item_id item" "mi_is_available m"
    by simp_all
  have pl: "priced d item l"
    using m by (auto simp: priced_def l_def list_ex_iff)
  have av: "available d item"
    using m by (auto simp: available_def list_ex_iff)
  have up: "[n..<n + length (item # rest)] = n # [Suc n..<Suc n + length rest]"
    by (rule upt_add_Cons)
  show ?case
    using new pl av nf unfolding up
    by (intro exI [of _ "l # new"]) (simp del: upt_Suc)
qed

lemma resolve_items_succeeds:
  assumes "list_all (available d) its"
      and "\<not> list_ex (\<lambda>i. f (SelectMenuItem i)) [n..<n + length its]"
  shows "\<exists>r. resolve_items f d n its s acc = Inr r"
  using assms
proof (induction its arbitrary: n s acc)
  case Nil
  then show ?case by simp
next
  case (Cons item rest)
  have up: "[n..<n + length (item # rest)] = n # [Suc n..<Suc n + length rest]"
    by (rule upt_add_Cons)
  from Cons.prems(2) have nf: "\<not> f (SelectMenuItem n)"
    and nfr: "\<not> list_ex (\<lambda>i. f (SelectMenuItem i)) [Suc n..<Suc n + length rest]"
    unfolding up by (simp_all del: upt_Suc)
  from Cons.prems(1) have "available d item" and avr: "list_all (available d) rest"
    by simp_all
  then obtain m ms where
    fm: "filter (\<lambda>m. mi_id m = menu_item_id item \<and> mi_is_available m) (menu_items d) = m # ms"
    by (cases "filter (\<lambda>m. mi_id m = menu_item_id item \<and> mi_is_available m) (menu_items d)")
       (auto simp: available_def list_ex_iff filter_empty_conv)
  show ?case
    using nf fm Cons.IH [OF avr nfr] by (simp add: Let_def)
qed

subsection \<open>The two insert loops\<close>

lemma insert_order_items_frame:
  "insert_order_items f orderId n ls d = (ok, d') \<Longrightarrow>
     d' = d\<lparr>order_items := order_items d', next_order_item_id := next_order_item_id d'\<rparr>"
proof (induction ls arbitrary: n d)
  case Nil
  then show ?case by simp
next
  case (Cons l rest)
  show ?case
  proof (cases "f (InsertOrderItem n)")
    case True
    with Cons.prems show ?thesis by simp
  next
    case False
    with Cons.prems have
      "insert_order_items f orderId (Suc n) rest (insert_order_item orderId l d) = (ok, d')"
      by simp
    from Cons.IH [OF this] have
      "d' = (insert_order_item orderId l d)
              \<lparr>order_items := order_items d', next_order_item_id := next_order_item_id d'\<rparr>" .
    then show ?thesis
      by (simp add: insert_order_item_def)
  qed
qed

lemma insert_order_items_True:
  "insert_order_items f orderId n ls d = (True, d') \<Longrightarrow> list_all2 (priced d0) its ls \<Longrightarrow>
     \<exists>new. order_items d' = order_items d @ new \<and>
           list_all2 (order_line_row d0 orderId) its new \<and>
           map line_total_price ls = map line_double new \<and>
           \<not> list_ex (\<lambda>i. f (InsertOrderItem i)) [n..<n + length ls]"
proof (induction ls arbitrary: n d its)
  case Nil
  then show ?case by simp
next
  case (Cons l rest)
  from Cons.prems(2) obtain item its' where its: "its = item # its'"
    and pl: "priced d0 item l" and pr: "list_all2 (priced d0) its' rest"
    by (auto simp: list_all2_Cons2)
  from Cons.prems(1) have nf: "\<not> f (InsertOrderItem n)"
    by (simp split: if_splits)
  with Cons.prems(1) have rec:
    "insert_order_items f orderId (Suc n) rest (insert_order_item orderId l d) = (True, d')"
    by simp
  from Cons.IH [OF rec pr] obtain new where
    new: "order_items d' = order_items (insert_order_item orderId l d) @ new"
         "list_all2 (order_line_row d0 orderId) its' new"
         "map line_total_price rest = map line_double new"
         "\<not> list_ex (\<lambda>i. f (InsertOrderItem i)) [Suc n..<Suc n + length rest]"
    by blast
  define oi where "oi = last (order_items (insert_order_item orderId l d))"
  have oi: "order_items (insert_order_item orderId l d) = order_items d @ [oi]"
    by (simp add: oi_def insert_order_item_def)
  have row: "order_line_row d0 orderId item oi"
    using pl by (simp add: order_line_row_def priced_def oi_def insert_order_item_def
                   line_double_def)
  have tot: "line_total_price l = line_double oi"
    using pl by (simp add: priced_def oi_def insert_order_item_def line_double_def)
  have up: "[n..<n + length (l # rest)] = n # [Suc n..<Suc n + length rest]"
    by (rule upt_add_Cons)
  have sum: "map line_total_price (l # rest) = map line_double (oi # new)"
    using new(3) tot by simp
  show ?case
    using new(1,2,4) row nf sum unfolding up its oi
    by (intro exI [of _ "oi # new"]) (simp del: upt_Suc)
qed

lemma insert_order_items_succeeds:
  "\<not> list_ex (\<lambda>i. f (InsertOrderItem i)) [n..<n + length ls] \<Longrightarrow>
     \<exists>d'. insert_order_items f orderId n ls d = (True, d')"
proof (induction ls arbitrary: n d)
  case Nil
  then show ?case by simp
next
  case (Cons l rest)
  have up: "[n..<n + length (l # rest)] = n # [Suc n..<Suc n + length rest]"
    by (rule upt_add_Cons)
  from Cons.prems have nf: "\<not> f (InsertOrderItem n)"
    and nfr: "\<not> list_ex (\<lambda>i. f (InsertOrderItem i)) [Suc n..<Suc n + length rest]"
    unfolding up by (simp_all del: upt_Suc)
  show ?case
    using nf Cons.IH [OF nfr] by simp
qed

lemma insert_kot_items_frame:
  "insert_kot_items f kotId n ois d = (ok, d') \<Longrightarrow>
     d' = d\<lparr>kot_items := kot_items d', next_kot_item_id := next_kot_item_id d'\<rparr>"
proof (induction ois arbitrary: n d)
  case Nil
  then show ?case by simp
next
  case (Cons oi rest)
  show ?case
  proof (cases "f (SelectMenuItemName n) \<or> f (InsertKotItem n) \<or>
                filter (\<lambda>m. mi_id m = oi_menu_item_id oi) (menu_items d) = []")
    case True
    with Cons.prems show ?thesis
      by (auto split: list.splits if_splits)
  next
    case False
    then obtain m ms where
      fm: "filter (\<lambda>m. mi_id m = oi_menu_item_id oi) (menu_items d) = m # ms"
      by (cases "filter (\<lambda>m. mi_id m = oi_menu_item_id oi) (menu_items d)") auto
    with False Cons.prems have
      "insert_kot_items f kotId (Suc n) rest (insert_kot_item kotId oi (mi_name m) d) = (ok, d')"
      by simp
    from Cons.IH [OF this] have
      "d' = (insert_kot_item kotId oi (mi_name m) d)
              \<lparr>kot_items := kot_items d', next_kot_item_id := next_kot_item_id d'\<rparr>" .
    then show ?thesis
      by (simp add: insert_kot_item_def)
  qed
qed

lemma insert_kot_items_True:
  "insert_kot_items f kotId n ois d = (True, d') \<Longrightarrow> menu_items d = menu_items d0 \<Longrightarrow>
     \<exists>new. kot_items d' = kot_items d @ new \<and>
           list_all2 (ticket_line_row d0 kotId) ois new \<and>
           \<not> list_ex (\<lambda>i. f (SelectMenuItemName i) \<or> f (InsertKotItem i)) [n..<n + length ois]"
proof (induction ois arbitrary: n d)
  case Nil
  then show ?case by simp
next
  case (Cons oi rest)
  from Cons.prems(1) have nf: "\<not> f (SelectMenuItemName n)"
    by (simp split: if_splits)
  from Cons.prems(1) nf obtain m ms where
    fm: "filter (\<lambda>m. mi_id m = oi_menu_item_id oi) (menu_items d) = m # ms"
    by (auto split: list.splits)
  from Cons.prems(1) nf fm have nf2: "\<not> f (InsertKotItem n)"
    by (simp split: if_splits)
  with Cons.prems(1) nf fm have rec:
    "insert_kot_items f kotId (Suc n) rest (insert_kot_item kotId oi (mi_name m) d) = (True, d')"
    by simp
  have mi: "menu_items (insert_kot_item kotId oi (mi_name m) d) = menu_items d0"
    using Cons.prems(2) by (simp add: insert_kot_item_def)
  from Cons.IH [OF rec mi] obtain new where
    new: "kot_items d' = kot_items (insert_kot_item kotId oi (mi_name m) d) @ new"
         "list_all2 (ticket_line_row d0 kotId) rest new"
         "\<not> list_ex (\<lambda>i. f (SelectMenuItemName i) \<or> f (InsertKotItem i))
               [Suc n..<Suc n + length rest]"
    by blast
  define ki where "ki = last (kot_items (insert_kot_item kotId oi (mi_name m) d))"
  have ki: "kot_items (insert_kot_item kotId oi (mi_name m) d) = kot_items d @ [ki]"
    by (simp add: ki_def insert_kot_item_def)
  from filter_Cons_member [OF fm] have m: "m \<in> set (menu_items d0)"
    "mi_id m = oi_menu_item_id oi"
    using Cons.prems(2) by simp_all
  have row: "ticket_line_row d0 kotId oi ki"
    using m by (auto simp: ticket_line_row_def ki_def insert_kot_item_def list_ex_iff)
  have up: "[n..<n + length (oi # rest)] = n # [Suc n..<Suc n + length rest]"
    by (rule upt_add_Cons)
  show ?case
    using new row nf nf2 unfolding up ki
    by (intro exI [of _ "ki # new"]) (simp del: upt_Suc)
qed

lemma insert_kot_items_succeeds:
  "list_all (\<lambda>oi. list_ex (\<lambda>m. mi_id m = oi_menu_item_id oi) (menu_items d)) ois \<Longrightarrow>
   \<not> list_ex (\<lambda>i. f (SelectMenuItemName i) \<or> f (InsertKotItem i)) [n..<n + length ois] \<Longrightarrow>
     \<exists>d'. insert_kot_items f kotId n ois d = (True, d')"
proof (induction ois arbitrary: n d)
  case Nil
  then show ?case by simp
next
  case (Cons oi rest)
  have up: "[n..<n + length (oi # rest)] = n # [Suc n..<Suc n + length rest]"
    by (rule upt_add_Cons)
  from Cons.prems(2) have nf: "\<not> f (SelectMenuItemName n)" "\<not> f (InsertKotItem n)"
    and nfr: "\<not> list_ex (\<lambda>i. f (SelectMenuItemName i) \<or> f (InsertKotItem i))
                 [Suc n..<Suc n + length rest]"
    unfolding up by (simp_all del: upt_Suc)
  from Cons.prems(1) obtain m ms where
    fm: "filter (\<lambda>m. mi_id m = oi_menu_item_id oi) (menu_items d) = m # ms"
    by (cases "filter (\<lambda>m. mi_id m = oi_menu_item_id oi) (menu_items d)")
       (auto simp: list_ex_iff filter_empty_conv)
  have "list_all (\<lambda>x. list_ex (\<lambda>m. mi_id m = oi_menu_item_id x)
                    (menu_items (insert_kot_item kotId oi (mi_name m) d))) rest"
    using Cons.prems(1) by (simp add: insert_kot_item_def)
  from Cons.IH [OF this nfr] show ?case
    using nf fm by simp
qed

subsection \<open>The three stages of the transaction\<close>

lemma price_order_Inr:
  assumes "price_order f req d = Inr (s, t, tot, ls)"
  shows "valid_request req" and "list_all2 (priced d) (items req) ls"
    and "s = foldl fadd 0 (map line_total_price ls)"
    and "t = fdiv (fmul s (taxRate_of d)) 100" and "tot = fadd s t"
    and "list_all (available d) (items req)"
    and "\<not> list_ex (\<lambda>i. f (SelectMenuItem i)) [0..<length (items req)]"
    and "\<not> f SelectTaxRate"
proof -
  from assms have v: "valid_request req"
    by (simp add: price_order_def split: if_splits)
  from assms v obtain s0 ls0 where r: "resolve_items f d 0 (items req) 0 [] = Inr (s0, ls0)"
    by (auto simp: price_order_def split: sum.splits)
  from assms v r have x0: "\<not> f SelectTaxRate"
    by (auto simp: price_order_def split: if_splits)
  from assms v r x0 have
    "(Inr (s0, fdiv (fmul s0 (taxRate_of d)) 100,
           fadd s0 (fdiv (fmul s0 (taxRate_of d)) 100), ls0)
        :: response + rat \<times> rat \<times> rat \<times> order_line list) = Inr (s, t, tot, ls)"
    unfolding price_order_def Let_def by (simp only: if_False simp_thms sum.case prod.case)
  then have "s0 = s" and "fdiv (fmul s0 (taxRate_of d)) 100 = t"
    and "fadd s0 (fdiv (fmul s0 (taxRate_of d)) 100) = tot" and "ls0 = ls"
    by blast+
  with x0 have x: "\<not> f SelectTaxRate" "s = s0" "ls = ls0"
    "t = fdiv (fmul s0 (taxRate_of d)) 100" "tot = fadd s0 t"
    by blast+
  from resolve_items_Inr [OF r] x(2,3) have
    "list_all2 (priced d) (items req) ls" "s = foldl fadd 0 (map line_total_price ls)"
    "list_all (available d) (items req)"
    "\<not> list_ex (\<lambda>i. f (SelectMenuItem i)) [0..<length (items req)]"
    by auto
  with v x show "valid_request req" and "list_all2 (priced d) (items req) ls"
    and "s = foldl fadd 0 (map line_total_price ls)"
    and "t = fdiv (fmul s (taxRate_of d)) 100" and "tot = fadd s t"
    and "list_all (available d) (items req)"
    and "\<not> list_ex (\<lambda>i. f (SelectMenuItem i)) [0..<length (items req)]"
    and "\<not> f SelectTaxRate"
    by simp_all
qed

lemma price_order_succeeds:
  assumes "valid_request req" and "list_all (available d) (items req)"
      and "\<not> list_ex (\<lambda>i. f (SelectMenuItem i)) [0..<length (items req)]"
      and "\<not> f SelectTaxRate"
  shows "\<exists>s t tot ls. price_order f req d = Inr (s, t, tot, ls)"
proof -
  from resolve_items_succeeds [of d "items req" f 0 0 "[]"] assms(2,3)
  obtain s ls where "resolve_items f d 0 (items req) 0 [] = Inr (s, ls)"
    by auto
  with assms(1,4) have
    "price_order f req d =
       Inr (s, fdiv (fmul s (taxRate_of d)) 100, fadd s (fdiv (fmul s (taxRate_of d)) 100), ls)"
    by (simp add: price_order_def Let_def)
  then show ?thesis
    by blast
qed

lemma write_order_Some:
  assumes w: "write_order f e req s t tot ls d = (Some orderId, d1)"
      and p: "list_all2 (priced d) (items req) ls"
  obtains ois where "orderId = next_order_id d" and "\<not> f InsertOrder"
    and "\<not> binds_undefined req"
    and "orderNumber e \<notin> set (map order_number (orders d))"
    and "orders d1 = orders d @ [order_values e req s t tot orderId]"
    and "order_items d1 = order_items d @ ois"
    and "list_all2 (order_line_row d orderId) (items req) ois"
    and "map line_total_price ls = map line_double ois"
    and "\<not> list_ex (\<lambda>i. f (InsertOrderItem i)) [0..<length (items req)]"
    and "d1 = d\<lparr>orders := orders d1, next_order_id := next_order_id d1,
                 order_items := order_items d1, next_order_item_id := next_order_item_id d1\<rparr>"
proof -
  from w have g: "\<not> f InsertOrder" "\<not> binds_undefined req"
    "orderNumber e \<notin> set (map order_number (orders d))"
    by (auto simp: write_order_def split: if_splits)
  define d0 where "d0 = insert_order e req s t tot d"
  from w g have l: "insert_order_items f (next_order_id d) 0 ls d0 = (True, d1)"
    and oid: "orderId = next_order_id d"
    by (auto simp: write_order_def Let_def d0_def split: prod.splits bool.splits)
  from insert_order_items_True [OF l p] obtain ois where
    ois: "order_items d1 = order_items d0 @ ois"
         "list_all2 (order_line_row d (next_order_id d)) (items req) ois"
         "map line_total_price ls = map line_double ois"
         "\<not> list_ex (\<lambda>i. f (InsertOrderItem i)) [0..<0 + length ls]"
    by blast
  have len: "length ls = length (items req)"
    using p by (simp add: list_all2_lengthD)
  from insert_order_items_frame [OF l] have fr:
    "d1 = d0\<lparr>order_items := order_items d1, next_order_item_id := next_order_item_id d1\<rparr>" .
  have o1: "orders d1 = orders d0" and n1: "next_order_id d1 = next_order_id d0"
    by (subst fr, simp)+
  have "d1 = d\<lparr>orders := orders d1, next_order_id := next_order_id d1,
                order_items := order_items d1, next_order_item_id := next_order_item_id d1\<rparr>"
    unfolding o1 n1 by (subst fr) (simp add: d0_def insert_order_def)
  moreover have "orders d1 = orders d @ [order_values e req s t tot orderId]"
    unfolding o1 by (simp add: d0_def insert_order_def oid)
  moreover have "order_items d1 = order_items d @ ois"
    using ois(1) by (simp add: d0_def insert_order_def)
  ultimately show thesis
    using that [of ois] g oid ois(2,3,4) len by simp
qed

lemma write_order_succeeds:
  assumes "\<not> f InsertOrder" and "orderNumber e \<notin> set (map order_number (orders d))"
      and "\<not> list_ex (\<lambda>i. f (InsertOrderItem i)) [0..<length ls]"
      and "\<not> binds_undefined req"
  shows "\<exists>orderId d1. write_order f e req s t tot ls d = (Some orderId, d1)"
proof -
  from insert_order_items_succeeds [of f 0 ls "next_order_id d" "insert_order e req s t tot d"]
    assms(3)
  obtain d1 where
    "insert_order_items f (next_order_id d) 0 ls (insert_order e req s t tot d) = (True, d1)"
    by auto
  with assms(1,2,4) show ?thesis
    by (simp add: write_order_def Let_def)
qed

lemma write_kot_Some:
  assumes w: "write_kot f e req orderId d1 = (Some kotId, d2)"
  obtains kis where "kotId = next_kot_id d1" and "\<not> f SelectItemCategories"
    and "\<not> f InsertKot" and "kotNumber e \<notin> set (map kot_number (kots d1))"
    and "\<not> f SelectOrderItems" and "\<not> f Commit"
    and "kots d2 = kots d1 @
           [kot_values e orderId
              (categoryType (itemCategories d1 (map menu_item_id (items req)))) kotId]"
    and "kot_items d2 = kot_items d1 @ kis"
    and "list_all2 (ticket_line_row d1 kotId)
           (filter (\<lambda>oi. oi_order_id oi = orderId) (order_items d1)) kis"
    and "\<not> list_ex (\<lambda>i. f (SelectMenuItemName i) \<or> f (InsertKotItem i))
             [0..<length (filter (\<lambda>oi. oi_order_id oi = orderId) (order_items d1))]"
    and "d2 = d1\<lparr>kots := kots d2, next_kot_id := next_kot_id d2,
                  kot_items := kot_items d2, next_kot_item_id := next_kot_item_id d2\<rparr>"
proof -
  from w have g: "\<not> f SelectItemCategories" "\<not> f InsertKot"
    "kotNumber e \<notin> set (map kot_number (kots d1))"
    by (auto simp: write_kot_def Let_def split: if_splits)
  define d0 where
    "d0 = insert_kot e orderId
            (categoryType (itemCategories d1 (map menu_item_id (items req)))) d1"
  define created where "created = filter (\<lambda>oi. oi_order_id oi = orderId) (order_items d1)"
  have oi0: "order_items d0 = order_items d1" and mi0: "menu_items d0 = menu_items d1"
    by (simp_all add: d0_def insert_kot_def)
  from w g have g2: "\<not> f SelectOrderItems"
    by (auto simp: write_kot_def Let_def split: if_splits)
  from w g g2 have l: "insert_kot_items f (next_kot_id d1) 0 created d0 = (True, d2)"
    and kid: "kotId = next_kot_id d1" and g3: "\<not> f Commit"
    by (auto simp: write_kot_def Let_def d0_def created_def insert_kot_def
             split: prod.splits bool.splits if_splits)
  from insert_kot_items_True [OF l mi0] obtain kis where
    kis: "kot_items d2 = kot_items d0 @ kis"
         "list_all2 (ticket_line_row d1 (next_kot_id d1)) created kis"
         "\<not> list_ex (\<lambda>i. f (SelectMenuItemName i) \<or> f (InsertKotItem i))
               [0..<0 + length created]"
    by blast
  from insert_kot_items_frame [OF l] have fr:
    "d2 = d0\<lparr>kot_items := kot_items d2, next_kot_item_id := next_kot_item_id d2\<rparr>" .
  have k2: "kots d2 = kots d0" and n2: "next_kot_id d2 = next_kot_id d0"
    by (subst fr, simp)+
  have "d2 = d1\<lparr>kots := kots d2, next_kot_id := next_kot_id d2,
                 kot_items := kot_items d2, next_kot_item_id := next_kot_item_id d2\<rparr>"
    unfolding k2 n2 by (subst fr) (simp add: d0_def insert_kot_def)
  moreover have "kots d2 = kots d1 @
           [kot_values e orderId
              (categoryType (itemCategories d1 (map menu_item_id (items req)))) kotId]"
    unfolding k2 by (simp add: d0_def insert_kot_def kid)
  moreover have "kot_items d2 = kot_items d1 @ kis"
    using kis(1) by (simp add: d0_def insert_kot_def)
  ultimately show thesis
    using that [of kis] g g2 g3 kid kis(2,3) by (simp add: created_def)
qed

lemma write_kot_succeeds:
  assumes "\<not> f SelectItemCategories" and "\<not> f InsertKot"
      and "kotNumber e \<notin> set (map kot_number (kots d1))"
      and "\<not> f SelectOrderItems" and "\<not> f Commit"
      and "list_all (\<lambda>oi. list_ex (\<lambda>m. mi_id m = oi_menu_item_id oi) (menu_items d1))
             (filter (\<lambda>oi. oi_order_id oi = orderId) (order_items d1))"
      and "\<not> list_ex (\<lambda>i. f (SelectMenuItemName i) \<or> f (InsertKotItem i))
               [0..<length (filter (\<lambda>oi. oi_order_id oi = orderId) (order_items d1))]"
  shows "\<exists>kotId d2. write_kot f e req orderId d1 = (Some kotId, d2)"
proof -
  define d0 where
    "d0 = insert_kot e orderId
            (categoryType (itemCategories d1 (map menu_item_id (items req)))) d1"
  define created where "created = filter (\<lambda>oi. oi_order_id oi = orderId) (order_items d1)"
  have oi0: "order_items d0 = order_items d1" and mi0: "menu_items d0 = menu_items d1"
    by (simp_all add: d0_def insert_kot_def)
  from insert_kot_items_succeeds [of d0 created f 0 "next_kot_id d1"] assms(6,7)
  obtain d2 where "insert_kot_items f (next_kot_id d1) 0 created d0 = (True, d2)"
    by (auto simp: created_def mi0)
  with assms(1-5) show ?thesis
    by (simp add: write_kot_def Let_def d0_def created_def insert_kot_def)
qed

subsection \<open>The transaction as a whole\<close>

lemma own_order_items:
  "list_all2 (order_line_row d orderId) its ois \<Longrightarrow>
     filter (\<lambda>oi. oi_order_id oi = orderId) ois = ois"
  by (induction its ois rule: list_all2_induct) (simp_all add: order_line_row_def)

lemma no_foreign_order_items:
  "fresh_order_id d \<Longrightarrow> filter (\<lambda>oi. oi_order_id oi = next_order_id d) (order_items d) = []"
  by (simp add: fresh_order_id_def list_all_iff filter_empty_conv)

lemma order_line_row_menu_item:
  "list_all2 (order_line_row d orderId) its ois \<Longrightarrow>
     list_all (\<lambda>oi. list_ex (\<lambda>m. mi_id m = oi_menu_item_id oi) (menu_items d)) ois"
  by (induction its ois rule: list_all2_induct)
     (auto simp: order_line_row_def list_ex_iff)

lemma loop_faults_iff:
  "\<not> loop_faults f n \<longleftrightarrow>
     \<not> list_ex (\<lambda>i. f (SelectMenuItem i)) [0..<n] \<and>
     \<not> list_ex (\<lambda>i. f (InsertOrderItem i)) [0..<n] \<and>
     \<not> list_ex (\<lambda>i. f (SelectMenuItemName i) \<or> f (InsertKotItem i)) [0..<n]"
  unfolding loop_faults_def list_ex_iff by blast

lemma create_order_tx_stages:
  assumes "create_order_tx f e req d = (Inr (orderId, kotId, totalAmount), dc)"
  obtains s t ls d1 where "\<not> f BeginTransaction"
    and "price_order f req d = Inr (s, t, totalAmount, ls)"
    and "write_order f e req s t totalAmount ls d = (Some orderId, d1)"
    and "write_kot f e req orderId d1 = (Some kotId, dc)"
proof -
  from assms have b: "\<not> f BeginTransaction"
    by (auto simp: create_order_tx_def split: if_splits)
  from assms b obtain s t tot ls where p: "price_order f req d = Inr (s, t, tot, ls)"
    by (cases "price_order f req d") (auto simp: create_order_tx_def)
  from assms b p obtain oid d1 where w: "write_order f e req s t tot ls d = (Some oid, d1)"
    by (cases "write_order f e req s t tot ls d")
       (auto simp: create_order_tx_def split: option.splits)
  from assms b p w obtain kid d2 where k: "write_kot f e req oid d1 = (Some kid, d2)"
    by (cases "write_kot f e req oid d1")
       (auto simp: create_order_tx_def split: option.splits)
  from assms b p w k have "oid = orderId" "kid = kotId" "tot = totalAmount" "d2 = dc"
    by (simp_all add: create_order_tx_def)
  with b p w k show thesis
    using that by blast
qed

lemma create_order_tx_Inr:
  assumes tx: "create_order_tx f e req d = (Inr (orderId, kotId, totalAmount), dc)"
      and fresh: "fresh_order_id d"
  obtains ois kis where "steps_succeed f e req d"
    and "orderId = next_order_id d" and "kotId = next_kot_id d"
    and "totalAmount =
           fadd (subtotal_double ois) (fdiv (fmul (subtotal_double ois) (taxRate_of d)) 100)"
    and "orders dc = orders d @
           [order_values e req (subtotal_double ois)
              (fdiv (fmul (subtotal_double ois) (taxRate_of d)) 100) totalAmount orderId]"
    and "order_items dc = order_items d @ ois"
    and "list_all2 (order_line_row d orderId) (items req) ois"
    and "kots dc = kots d @
           [kot_values e orderId
              (categoryType (itemCategories d (map menu_item_id (items req)))) kotId]"
    and "kot_items dc = kot_items d @ kis"
    and "list_all2 (ticket_line_row d kotId) ois kis"
    and "dc = d\<lparr>orders := orders dc, next_order_id := next_order_id dc,
                 order_items := order_items dc, next_order_item_id := next_order_item_id dc,
                 kots := kots dc, next_kot_id := next_kot_id dc,
                 kot_items := kot_items dc, next_kot_item_id := next_kot_item_id dc\<rparr>"
proof -
  from create_order_tx_stages [OF tx] obtain s t ls d1 where
    b: "\<not> f BeginTransaction"
    and p: "price_order f req d = Inr (s, t, totalAmount, ls)"
    and w: "write_order f e req s t totalAmount ls d = (Some orderId, d1)"
    and k: "write_kot f e req orderId d1 = (Some kotId, dc)"
    by blast
  note pf = price_order_Inr [OF p]
  from write_order_Some [OF w pf(2)] obtain ois where
    o: "orderId = next_order_id d" "\<not> f InsertOrder"
       "orderNumber e \<notin> set (map order_number (orders d))"
       "orders d1 = orders d @ [order_values e req s t totalAmount orderId]"
       "order_items d1 = order_items d @ ois"
       "list_all2 (order_line_row d orderId) (items req) ois"
       "map line_total_price ls = map line_double ois"
       "\<not> list_ex (\<lambda>i. f (InsertOrderItem i)) [0..<length (items req)]"
    and bu: "\<not> binds_undefined req"
    and f1: "d1 = d\<lparr>orders := orders d1, next_order_id := next_order_id d1,
                     order_items := order_items d1,
                     next_order_item_id := next_order_item_id d1\<rparr>"
    by blast
  have same: "menu_items d1 = menu_items d" "subcategories d1 = subcategories d"
    "categories d1 = categories d" "kots d1 = kots d" "kot_items d1 = kot_items d"
    "next_kot_id d1 = next_kot_id d"
    by (subst f1, simp)+
  have created: "filter (\<lambda>oi. oi_order_id oi = orderId) (order_items d1) = ois"
    using no_foreign_order_items [OF fresh] own_order_items [OF o(6)]
    by (simp add: o(1,5))
  from write_kot_Some [OF k] obtain kis where
    t: "kotId = next_kot_id d1" "\<not> f SelectItemCategories" "\<not> f InsertKot"
       "kotNumber e \<notin> set (map kot_number (kots d1))" "\<not> f SelectOrderItems" "\<not> f Commit"
       "kots dc = kots d1 @
          [kot_values e orderId
             (categoryType (itemCategories d1 (map menu_item_id (items req)))) kotId]"
       "kot_items dc = kot_items d1 @ kis"
       "list_all2 (ticket_line_row d1 kotId)
          (filter (\<lambda>oi. oi_order_id oi = orderId) (order_items d1)) kis"
       "\<not> list_ex (\<lambda>i. f (SelectMenuItemName i) \<or> f (InsertKotItem i))
            [0..<length (filter (\<lambda>oi. oi_order_id oi = orderId) (order_items d1))]"
    and f2: "dc = d1\<lparr>kots := kots dc, next_kot_id := next_kot_id dc,
                      kot_items := kot_items dc, next_kot_item_id := next_kot_item_id dc\<rparr>"
    by blast
  have len: "length ois = length (items req)"
    using o(6) by (simp add: list_all2_lengthD)
  have cats: "itemCategories d1 = itemCategories d"
    by (rule ext) (simp only: itemCategories_def same)
  have tl: "ticket_line_row d1 = ticket_line_row d"
    by (rule ext)+ (simp only: ticket_line_row_def same)
  have ok: "steps_succeed f e req d"
    unfolding steps_succeed_def loop_faults_iff
    using b bu pf(1,6,7,8) o(2,3,8) t(2-6,10) by (simp add: created len same)
  have s: "s = subtotal_double ois"
    using pf(3) o(7) by (simp add: subtotal_double_def)
  have in2: "orders dc = orders d1" "order_items dc = order_items d1"
    "next_order_id dc = next_order_id d1" "next_order_item_id dc = next_order_item_id d1"
    by (subst f2, simp)+
  have frame: "dc = d\<lparr>orders := orders dc, next_order_id := next_order_id dc,
                 order_items := order_items dc, next_order_item_id := next_order_item_id dc,
                 kots := kots dc, next_kot_id := next_kot_id dc,
                 kot_items := kot_items dc, next_kot_item_id := next_kot_item_id dc\<rparr>"
    unfolding in2 by (subst f2, subst f1) simp
  show thesis
  proof (rule that [of ois kis])
    show "steps_succeed f e req d" by (rule ok)
    show "orderId = next_order_id d" by (rule o(1))
    show "kotId = next_kot_id d" using t(1) same(6) by simp
    show "totalAmount =
           fadd (subtotal_double ois) (fdiv (fmul (subtotal_double ois) (taxRate_of d)) 100)"
      using pf(4,5) s by simp
    show "orders dc = orders d @
           [order_values e req (subtotal_double ois)
              (fdiv (fmul (subtotal_double ois) (taxRate_of d)) 100) totalAmount orderId]"
      using o(4) pf(4) s in2(1) by simp
    show "order_items dc = order_items d @ ois"
      using o(5) in2(2) by simp
    show "list_all2 (order_line_row d orderId) (items req) ois" by (rule o(6))
    show "kots dc = kots d @
           [kot_values e orderId
              (categoryType (itemCategories d (map menu_item_id (items req)))) kotId]"
      using t(7) by (simp add: cats same)
    show "kot_items dc = kot_items d @ kis"
      using t(8) by (simp add: same)
    show "list_all2 (ticket_line_row d kotId) ois kis"
      using t(9) by (simp add: created tl)
    show "dc = d\<lparr>orders := orders dc, next_order_id := next_order_id dc,
                 order_items := order_items dc, next_order_item_id := next_order_item_id dc,
                 kots := kots dc, next_kot_id := next_kot_id dc,
                 kot_items := kot_items dc, next_kot_item_id := next_kot_item_id dc\<rparr>"
      by (rule frame)
  qed
qed

lemma create_order_tx_succeeds:
  assumes ok: "steps_succeed f e req d" and fresh: "fresh_order_id d"
  shows "\<exists>orderId kotId totalAmount dc.
           create_order_tx f e req d = (Inr (orderId, kotId, totalAmount), dc)"
proof -
  from ok have v: "valid_request req" "list_all (available d) (items req)"
    "orderNumber e \<notin> set (map order_number (orders d))"
    "kotNumber e \<notin> set (map kot_number (kots d))"
    "\<not> f BeginTransaction" "\<not> f SelectTaxRate" "\<not> f InsertOrder"
    "\<not> f SelectItemCategories" "\<not> f InsertKot" "\<not> f SelectOrderItems" "\<not> f Commit"
    and lf: "\<not> loop_faults f (length (items req))"
    and bu: "\<not> binds_undefined req"
    by (simp_all add: steps_succeed_def)
  from lf have l: "\<not> list_ex (\<lambda>i. f (SelectMenuItem i)) [0..<length (items req)]"
    "\<not> list_ex (\<lambda>i. f (InsertOrderItem i)) [0..<length (items req)]"
    "\<not> list_ex (\<lambda>i. f (SelectMenuItemName i) \<or> f (InsertKotItem i)) [0..<length (items req)]"
    unfolding loop_faults_iff by blast+
  from price_order_succeeds [OF v(1,2) l(1) v(6)] obtain s t tot ls where
    p: "price_order f req d = Inr (s, t, tot, ls)"
    by blast
  note pf = price_order_Inr [OF p]
  have lenl: "length ls = length (items req)"
    using pf(2) by (simp add: list_all2_lengthD)
  from write_order_succeeds
         [where f = f and e = e and d = d and ls = ls and req = req and s = s and t = t
            and tot = tot]
       v(7,3) l(2) lenl bu obtain orderId d1 where
    w: "write_order f e req s t tot ls d = (Some orderId, d1)"
    by auto
  from write_order_Some [OF w pf(2)] obtain ois where
    o: "orderId = next_order_id d"
       "order_items d1 = order_items d @ ois"
       "list_all2 (order_line_row d orderId) (items req) ois"
    and f1: "d1 = d\<lparr>orders := orders d1, next_order_id := next_order_id d1,
                     order_items := order_items d1,
                     next_order_item_id := next_order_item_id d1\<rparr>"
    by blast
  have same: "menu_items d1 = menu_items d" "kots d1 = kots d"
    by (subst f1, simp)+
  have created: "filter (\<lambda>oi. oi_order_id oi = orderId) (order_items d1) = ois"
    using no_foreign_order_items [OF fresh] own_order_items [OF o(3)]
    by (simp add: o(1,2))
  have len: "length ois = length (items req)"
    using o(3) by (simp add: list_all2_lengthD)
  have "\<exists>kotId d2. write_kot f e req orderId d1 = (Some kotId, d2)"
  proof (rule write_kot_succeeds)
    show "\<not> f SelectItemCategories" "\<not> f InsertKot" "\<not> f SelectOrderItems" "\<not> f Commit"
      by (rule v)+
    show "kotNumber e \<notin> set (map kot_number (kots d1))"
      using v(4) by (simp add: same)
    show "list_all (\<lambda>oi. list_ex (\<lambda>m. mi_id m = oi_menu_item_id oi) (menu_items d1))
            (filter (\<lambda>oi. oi_order_id oi = orderId) (order_items d1))"
      using order_line_row_menu_item [OF o(3)] by (simp add: created same)
    show "\<not> list_ex (\<lambda>i. f (SelectMenuItemName i) \<or> f (InsertKotItem i))
             [0..<length (filter (\<lambda>oi. oi_order_id oi = orderId) (order_items d1))]"
      using l(3) by (simp add: created len)
  qed
  then obtain kotId d2 where k: "write_kot f e req orderId d1 = (Some kotId, d2)"
    by blast
  from v(5) p w k have "create_order_tx f e req d = (Inr (orderId, kotId, tot), d2)"
    by (simp add: create_order_tx_def)
  then show ?thesis
    by blast
qed

subsection \<open>After the commit\<close>

lemma resolve_items_Inl:
  "resolve_items f d n its s acc = Inl r \<Longrightarrow>
     r = InternalServerError \<or> (\<exists>i. r = MenuItemUnavailable i)"
  by (induction its arbitrary: n s acc) (auto simp: Let_def split: if_splits list.splits)

lemma create_order_tx_Inl_response:
  assumes "create_order_tx f e req d = (Inl r, d1)"
  shows "r = ValidationFailed \<or> r = InternalServerError \<or> (\<exists>i. r = MenuItemUnavailable i)"
proof (cases "price_order f req d")
  case (Inl r')
  then have "r' = ValidationFailed \<or> r' = InternalServerError \<or> (\<exists>i. r' = MenuItemUnavailable i)"
    using resolve_items_Inl [of f d 0 "items req" 0 "[]" r']
    by (auto simp: price_order_def Let_def split: if_splits sum.splits)
  with Inl assms show ?thesis
    by (auto simp: create_order_tx_def split: if_splits)
next
  case (Inr x)
  with assms show ?thesis
    by (auto simp: create_order_tx_def split: if_splits prod.splits option.splits)
qed

lemma create_order_not_committed:
  assumes "create_order_tx f e req d = (Inl r, d1)"
  shows "create_order f e req d = (r, rollback d d1)"
  using assms by (simp add: create_order_def)

lemma printKOT_kots:
  "kots (snd (printKOT f e kotId d)) = kots d \<or>
   kots (snd (printKOT f e kotId d)) =
     map (\<lambda>k. if k_id k = kotId
               then k\<lparr>k_status := ''Printed'', printed_at := Some (clock e)\<rparr> else k) (kots d)"
proof (cases "fst (printKOT f e kotId d)")
  case (Inl err)
  then show ?thesis by (simp add: printKOT_failure)
next
  case (Inr p)
  then show ?thesis by (simp add: printKOT_success)
qed

lemma printKOT_other_tables:
  "orders (snd (printKOT f e kotId d)) = orders d \<and>
   order_items (snd (printKOT f e kotId d)) = order_items d \<and>
   kot_items (snd (printKOT f e kotId d)) = kot_items d"
proof (cases "fst (printKOT f e kotId d)")
  case (Inl err)
  then show ?thesis by (simp add: printKOT_failure)
next
  case (Inr p)
  then show ?thesis by (simp add: printKOT_success)
qed

lemma create_order_committed:
  assumes "create_order_tx f e req d = (Inr (orderId, kotId, totalAmount), dc)"
  shows "fst (create_order f e req d) =
           (if f SelectAutoPrint then InternalServerError
            else Created orderId (orderNumber e) (kotNumber e) totalAmount)"
    and "orders (snd (create_order f e req d)) = orders dc"
    and "order_items (snd (create_order f e req d)) = order_items dc"
    and "kot_items (snd (create_order f e req d)) = kot_items dc"
    and "kots (snd (create_order f e req d)) = kots dc \<or>
         kots (snd (create_order f e req d)) =
           map (\<lambda>k. if k_id k = kotId
                     then k\<lparr>k_status := ''Printed'', printed_at := Some (clock e)\<rparr> else k)
               (kots dc)"
  using assms printKOT_kots [of f e kotId dc] printKOT_other_tables [of f e kotId dc]
  by (auto simp: create_order_def)

text \<open>
  The read of the auto-print setting is outside the inner \<open>try\<close>: when it throws, the
  request is answered with status 500 although its rows are committed.
\<close>

lemma create_order_setting_read_throws:
  assumes "create_order_tx f e req d = (Inr (orderId, kotId, totalAmount), dc)"
      and "f SelectAutoPrint"
  shows "create_order f e req d = (InternalServerError, dc)"
  using assms by (simp add: create_order_def)

lemma printed_keeps_old_tickets:
  "fresh_kot_id d \<Longrightarrow>
     map (\<lambda>k. if k_id k = next_kot_id d then g k else k) (kots d) = kots d"
  by (simp add: fresh_kot_id_def list_all_iff map_idI)

subsection \<open>The sample request\<close>

lemma demo_fresh: "fresh_order_id demo_db" "fresh_kot_id demo_db"
  "fresh_order_id no_printer_db" "fresh_kot_id no_printer_db"
  "fresh_order_id small_price_db" "fresh_kot_id small_price_db"
  by (simp_all add: fresh_order_id_def fresh_kot_id_def demo_db_def no_printer_db_def
        small_price_db_def)

lemma demo_steps_succeed:
  "steps_succeed no_faults demo_env demo_request demo_db"
  "steps_succeed no_faults demo_env cola_request demo_db"
  "steps_succeed no_faults demo_env demo_request no_printer_db"
  "steps_succeed no_faults demo_env mixed_request demo_db"
  "steps_succeed no_faults demo_env small_price_request small_price_db"
  "steps_succeed setting_read_fault demo_env demo_request demo_db"
  by (simp_all add: steps_succeed_def valid_request_def binds_undefined_def order_types_def
        available_def loop_faults_def no_faults_def setting_read_fault_def demo_env_def
        demo_request_def cola_request_def mixed_request_def small_price_request_def
        demo_db_def no_printer_db_def small_price_db_def)

lemma demo_step_fails: "\<not> steps_succeed kot_item_fault demo_env demo_request demo_db"
  by (simp add: steps_succeed_def loop_faults_def kot_item_fault_def demo_request_def)

subsection \<open>Running the route on the sample requests\<close>

text \<open>
  The doubles of the sample orders: one Margherita at 100.00, two Cola at 2.50, and one
  item at 0.02 with three at 1.66, each at tax rate 8.5.
\<close>

lemma double_values:
  "js_number 10000 = 100"
  "fl 1 = 1"
  "fmul 100 1 = 100"
  "store_double 100 = 10000"
  "fadd 0 100 = 100"
  "fl (17 / 2) = (17 / 2)"
  "fmul 100 (17 / 2) = 850"
  "fdiv 850 100 = (17 / 2)"
  "fadd 100 (17 / 2) = (217 / 2)"
  "store_double (17 / 2) = 850"
  "store_double (217 / 2) = 10850"
  "js_number 250 = (5 / 2)"
  "fl 2 = 2"
  "fmul (5 / 2) 2 = 5"
  "store_double 5 = 500"
  "fadd 0 5 = 5"
  "fmul 5 (17 / 2) = (85 / 2)"
  "fdiv (85 / 2) 100 = (7656119366529843 / 18014398509481984)"
  "fadd 5 (7656119366529843 / 18014398509481984) = (6108006994621235 / 1125899906842624)"
  "store_double (7656119366529843 / 18014398509481984) = 43"
  "store_double (6108006994621235 / 1125899906842624) = 543"
  "js_number 2 = (5764607523034235 / 288230376151711744)"
  "fmul (5764607523034235 / 288230376151711744) 1 = (5764607523034235 / 288230376151711744)"
  "store_double (5764607523034235 / 288230376151711744) = 2"
  "fadd 0 (5764607523034235 / 288230376151711744) = (5764607523034235 / 288230376151711744)"
  "js_number 166 = (7475975381435023 / 4503599627370496)"
  "fl 3 = 3"
  "fmul (7475975381435023 / 4503599627370496) 3 = (5606981536076267 / 1125899906842624)"
  "store_double (5606981536076267 / 1125899906842624) = 498"
  "fadd (5764607523034235 / 288230376151711744) (5606981536076267 / 1125899906842624) = (5629499534213119 / 1125899906842624)"
  "fmul (5629499534213119 / 1125899906842624) (17 / 2) = (5981343255101439 / 140737488355328)"
  "fdiv (5981343255101439 / 140737488355328) 100 = (3828059683264921 / 9007199254740992)"
  "fadd (5629499534213119 / 1125899906842624) (3828059683264921 / 9007199254740992) = (3054003497310617 / 562949953421312)"
  "store_double (5629499534213119 / 1125899906842624) = 500"
  "store_double (3828059683264921 / 9007199254740992) = 42"
  "store_double (3054003497310617 / 562949953421312) = 542"
  by code_simp+

lemmas order_defs =
  create_order_def create_order_tx_def price_order_def valid_request_def binds_undefined_def
  order_types_def taxRate_of_def write_order_def write_kot_def insert_order_def
  insert_order_item_def order_values_def insert_kot_def insert_kot_item_def kot_values_def
  itemCategories_def categoryType_def foodCategories_def drinkCategories_def
  printKOT_def kotData_def select_printer_def mapped_printers_def default_printers_def
  initializePrinter_def rollback_def Let_def

lemmas sample_defs =
  demo_db_def demo_env_def demo_request_def cola_request_def mixed_request_def
  small_price_db_def small_price_request_def no_printer_db_def no_faults_def
  setting_read_fault_def kot_item_fault_def

subsection \<open>Atomicity\<close>

text \<open>
  C1. Order creation is all-or-nothing. When some step of a create-order request does
  not go through (the request is invalid, an item is missing or unavailable, a generated
  number is taken, an optional field is missing from the body so that the driver refuses
  the insert, or a statement between \<open>beginTransaction\<close> and \<open>commit\<close> throws), the
  answer is not 201 and the tables \<open>orders\<close>, \<open>order_items\<close>, \<open>kots\<close> and \<open>kot_items\<close> are
  as they were before the request. When every step goes through, the request adds one
  order, one order item per requested line, exactly one ticket for that order, and one
  ticket line per order item.
\<close>

theorem create_order_all_or_nothing:
  assumes "fresh_order_id d" and "fresh_kot_id d"
  shows "(\<not> steps_succeed f e req d \<longrightarrow>
            (\<forall>a b c t. fst (create_order f e req d) \<noteq> Created a b c t) \<and>
            orders (snd (create_order f e req d)) = orders d \<and>
            order_items (snd (create_order f e req d)) = order_items d \<and>
            kots (snd (create_order f e req d)) = kots d \<and>
            kot_items (snd (create_order f e req d)) = kot_items d) \<and>
         (steps_succeed f e req d \<longrightarrow>
            (\<exists>r ois k kis.
               orders (snd (create_order f e req d)) = orders d @ [r] \<and>
               order_items (snd (create_order f e req d)) = order_items d @ ois \<and>
               kots (snd (create_order f e req d)) = kots d @ [k] \<and>
               kot_items (snd (create_order f e req d)) = kot_items d @ kis \<and>
               k_order_id k = o_id r \<and>
               list_all2 (order_line_row d (o_id r)) (items req) ois \<and>
               list_all2 (ticket_line_row d (k_id k)) ois kis))"
proof (intro conjI impI)
  assume no: "\<not> steps_succeed f e req d"
  obtain out d1 where tx: "create_order_tx f e req d = (out, d1)"
    by (cases "create_order_tx f e req d")
  have "\<exists>r. out = Inl r"
  proof (cases out)
    case (Inl r)
    then show ?thesis by blast
  next
    case (Inr x)
    obtain orderId kotId tot where "x = (orderId, kotId, tot)"
      by (cases x)
    with Inr tx create_order_tx_Inr [OF _ assms(1), of f e req orderId kotId tot d1] no
    show ?thesis by blast
  qed
  then obtain r where r: "create_order_tx f e req d = (Inl r, d1)"
    using tx by blast
  note c = create_order_not_committed [OF r]
  from create_order_tx_Inl_response [OF r] c
  show "\<forall>a b c t. fst (create_order f e req d) \<noteq> Created a b c t"
    by auto
  from c show "orders (snd (create_order f e req d)) = orders d"
    and "order_items (snd (create_order f e req d)) = order_items d"
    and "kots (snd (create_order f e req d)) = kots d"
    and "kot_items (snd (create_order f e req d)) = kot_items d"
    by (simp_all add: rollback_def)
next
  assume ok: "steps_succeed f e req d"
  from create_order_tx_succeeds [OF ok assms(1)] obtain orderId kotId tot dc where
    tx: "create_order_tx f e req d = (Inr (orderId, kotId, tot), dc)"
    by blast
  from create_order_tx_Inr [OF tx assms(1)] obtain ois kis where
    x: "kotId = next_kot_id d"
       "orders dc = orders d @
           [order_values e req (subtotal_double ois)
              (fdiv (fmul (subtotal_double ois) (taxRate_of d)) 100) tot orderId]"
       "order_items dc = order_items d @ ois"
       "list_all2 (order_line_row d orderId) (items req) ois"
       "kots dc = kots d @
           [kot_values e orderId
              (categoryType (itemCategories d (map menu_item_id (items req)))) kotId]"
       "kot_items dc = kot_items d @ kis"
       "list_all2 (ticket_line_row d kotId) ois kis"
    by blast
  note c = create_order_committed [OF tx]
  define k0 where "k0 = kot_values e orderId
              (categoryType (itemCategories d (map menu_item_id (items req)))) kotId"
  define k where "k = (if kots (snd (create_order f e req d)) = kots dc then k0
                       else k0\<lparr>k_status := ''Printed'', printed_at := Some (clock e)\<rparr>)"
  have kk: "kots (snd (create_order f e req d)) = kots d @ [k]"
    using c(5) printed_keeps_old_tickets [OF assms(2)]
    by (auto simp: k_def k0_def x(1,5) kot_values_def)
  have kid: "k_order_id k = orderId" "k_id k = kotId"
    by (simp_all add: k_def k0_def kot_values_def)
  show "\<exists>r ois k kis.
               orders (snd (create_order f e req d)) = orders d @ [r] \<and>
               order_items (snd (create_order f e req d)) = order_items d @ ois \<and>
               kots (snd (create_order f e req d)) = kots d @ [k] \<and>
               kot_items (snd (create_order f e req d)) = kot_items d @ kis \<and>
               k_order_id k = o_id r \<and>
               list_all2 (order_line_row d (o_id r)) (items req) ois \<and>
               list_all2 (ticket_line_row d (k_id k)) ois kis"
    using x(2,3,4,6,7) c(2,3,4) kk kid
    by (intro exI [of _ "order_values e req (subtotal_double ois)
              (fdiv (fmul (subtotal_double ois) (taxRate_of d)) 100) tot orderId"]
           exI [of _ ois] exI [of _ k] exI [of _ kis])
       (simp add: order_values_def)
qed

theorem create_order_all_or_nothing_witness:
  "fresh_order_id demo_db \<and> fresh_kot_id demo_db \<and>
   \<not> steps_succeed kot_item_fault demo_env demo_request demo_db \<and>
   fst (create_order kot_item_fault demo_env demo_request demo_db) = InternalServerError \<and>
   orders (snd (create_order kot_item_fault demo_env demo_request demo_db)) = orders demo_db \<and>
   order_items (snd (create_order kot_item_fault demo_env demo_request demo_db)) =
     order_items demo_db \<and>
   kots (snd (create_order kot_item_fault demo_env demo_request demo_db)) = kots demo_db \<and>
   kot_items (snd (create_order kot_item_fault demo_env demo_request demo_db)) =
     kot_items demo_db \<and>
   steps_succeed no_faults demo_env demo_request demo_db \<and>
   length (orders (snd (create_order no_faults demo_env demo_request demo_db))) = 2 \<and>
   length (order_items (snd (create_order no_faults demo_env demo_request demo_db))) = 4 \<and>
   length (kots (snd (create_order no_faults demo_env demo_request demo_db))) = 2 \<and>
   length (kot_items (snd (create_order no_faults demo_env demo_request demo_db))) = 4"
proof -
  note t1 = create_order_all_or_nothing
              [OF demo_fresh(1,2), of kot_item_fault demo_env demo_request]
  note t2 = create_order_all_or_nothing
              [OF demo_fresh(1,2), of no_faults demo_env demo_request]
  have r: "fst (create_order kot_item_fault demo_env demo_request demo_db) = InternalServerError"
    by (simp add: order_defs sample_defs)
  have l: "length (orders demo_db) = 1" "length (order_items demo_db) = 3"
    "length (kots demo_db) = 1" "length (kot_items demo_db) = 3"
    "length (items demo_request) = 1"
    by (simp_all add: demo_db_def demo_request_def)
  from t2 demo_steps_succeed(1) obtain r' ois k kis where
    x: "orders (snd (create_order no_faults demo_env demo_request demo_db)) = orders demo_db @ [r']"
       "order_items (snd (create_order no_faults demo_env demo_request demo_db)) =
          order_items demo_db @ ois"
       "kots (snd (create_order no_faults demo_env demo_request demo_db)) = kots demo_db @ [k]"
       "kot_items (snd (create_order no_faults demo_env demo_request demo_db)) =
          kot_items demo_db @ kis"
       "list_all2 (order_line_row demo_db (o_id r')) (items demo_request) ois"
       "list_all2 (ticket_line_row demo_db (k_id k)) ois kis"
    by blast
  have n: "length ois = 1" "length kis = 1"
    using x(5,6) l(5) by (simp_all add: list_all2_lengthD [symmetric])
  show ?thesis
    using t1 demo_step_fails demo_steps_succeed(1) demo_fresh(1,2) r l n
    by (simp add: x(1-4))
qed

subsection \<open>Amounts\<close>

lemma order_lines_nonneg:
  assumes "list_all2 (order_line_row d orderId) its ois"
      and "list_all (\<lambda>item. 1 \<le> quantity item) its"
      and "prices_valid d"
  shows "list_all (\<lambda>oi. 0 \<le> unit_price oi \<and> 0 \<le> oi_quantity oi) ois"
  using assms
proof (induction its ois rule: list_all2_induct)
  case Nil
  then show ?case by simp
next
  case (Cons item its oi ois)
  from Cons.hyps(1) Cons.prems(2) have "0 \<le> unit_price oi"
    by (auto simp: order_line_row_def prices_valid_def list_ex_iff list_all_iff)
  moreover from Cons.hyps(1) Cons.prems(1) have "0 \<le> oi_quantity oi"
    by (simp add: order_line_row_def)
  ultimately show ?case
    using Cons by simp
qed

lemma order_lines_stored:
  "list_all2 (order_line_row d orderId) its ois \<Longrightarrow>
     list_all (\<lambda>oi. total_price oi = store_double (line_double oi)) ois"
  by (induction its ois rule: list_all2_induct) (simp_all add: order_line_row_def)

lemma line_doubles_close:
  "list_all (\<lambda>oi. 0 \<le> unit_price oi \<and> 0 \<le> oi_quantity oi) ois \<Longrightarrow>
     list_all2 (\<lambda>t c. 0 \<le> c \<and> \<bar>t - of_int c / 100\<bar> \<le> of_int c / 100 / 2251799813685248)
       (map line_double ois) (map (\<lambda>oi. unit_price oi * oi_quantity oi) ois)"
proof (induction ois)
  case Nil
  then show ?case by simp
next
  case (Cons oi ois)
  from Cons.prems have v: "0 \<le> unit_price oi" "0 \<le> oi_quantity oi"
    and vr: "list_all (\<lambda>oi. 0 \<le> unit_price oi \<and> 0 \<le> oi_quantity oi) ois"
    by simp_all
  have h: "\<bar>line_double oi - of_int (unit_price oi * oi_quantity oi) / 100\<bar>
             \<le> of_int (unit_price oi * oi_quantity oi) / 100 / 2251799813685248"
    unfolding line_double_def using v by (rule line_close)
  have "0 \<le> unit_price oi * oi_quantity oi" using v by simp
  with h Cons.IH [OF vr] show ?case
    by (simp only: list.map list_all2_Cons simp_thms)
qed

lemma line_doubles_nonneg:
  "list_all (\<lambda>oi. 0 \<le> unit_price oi \<and> 0 \<le> oi_quantity oi) ois \<Longrightarrow>
     list_all (\<lambda>t. 0 \<le> t) (map line_double ois)"
  by (induction ois) (simp_all add: line_double_def line_nonneg)

lemma lines_amount_nonneg:
  "list_all (\<lambda>oi. 0 \<le> unit_price oi \<and> 0 \<le> oi_quantity oi) ois \<Longrightarrow> 0 \<le> lines_amount ois"
  by (induction ois) (simp_all add: lines_amount_def)

lemma subtotal_double_nonneg:
  "list_all (\<lambda>oi. 0 \<le> unit_price oi \<and> 0 \<le> oi_quantity oi) ois \<Longrightarrow> 0 \<le> subtotal_double ois"
  unfolding subtotal_double_def by (intro foldl_fadd_nonneg line_doubles_nonneg) simp_all

lemma subtotal_double_close:
  assumes "list_all (\<lambda>oi. 0 \<le> unit_price oi \<and> 0 \<le> oi_quantity oi) ois"
      and "length ois \<le> max_lines" and "lines_amount ois \<le> max_amount"
  shows "\<bar>subtotal_double ois - of_int (lines_amount ois) / 100\<bar> \<le> 1 / 250"
  unfolding subtotal_double_def lines_amount_def
  using assms(2,3)
  by (intro subtotal_close line_doubles_close assms(1))
     (simp_all add: max_lines_def max_amount_def lines_amount_def)

lemma stored_subtotal:
  assumes "list_all (\<lambda>oi. 0 \<le> unit_price oi \<and> 0 \<le> oi_quantity oi) ois"
      and "length ois \<le> max_lines" and "lines_amount ois \<le> max_amount"
  shows "store_double (subtotal_double ois) = lines_amount ois"
proof (rule store_exact)
  show "0 \<le> subtotal_double ois" using assms(1) by (rule subtotal_double_nonneg)
  show "0 \<le> lines_amount ois" using assms(1) by (rule lines_amount_nonneg)
  show "lines_amount ois \<le> 100000000000" using assms(3) by (simp add: max_amount_def)
  show "\<bar>subtotal_double ois - of_int (lines_amount ois) / 100\<bar> \<le> 49 / 10000"
    using subtotal_double_close [OF assms] by linarith
qed

lemma stored_lines_exact:
  assumes "list_all (\<lambda>oi. 0 \<le> unit_price oi \<and> 0 \<le> oi_quantity oi) ois"
      and "lines_amount ois \<le> max_amount"
  shows "list_all (\<lambda>oi. store_double (line_double oi) = unit_price oi * oi_quantity oi) ois"
  using assms
proof (induction ois)
  case Nil
  then show ?case by simp
next
  case (Cons oi ois)
  define c where "c = unit_price oi * oi_quantity oi"
  from Cons.prems(1) have v: "0 \<le> unit_price oi" "0 \<le> oi_quantity oi"
    and vr: "list_all (\<lambda>oi. 0 \<le> unit_price oi \<and> 0 \<le> oi_quantity oi) ois"
    by simp_all
  have c0: "0 \<le> c" using v by (simp add: c_def)
  have r0: "0 \<le> lines_amount ois" using vr by (rule lines_amount_nonneg)
  have sum: "lines_amount (oi # ois) = c + lines_amount ois"
    by (simp add: lines_amount_def c_def)
  have cb: "c \<le> 10000000000" and rb: "lines_amount ois \<le> max_amount"
    using Cons.prems(2) c0 r0 unfolding sum by (simp_all add: max_amount_def)
  have cr: "0 \<le> (of_int c :: rat)" "(of_int c :: rat) \<le> 10000000000"
    using c0 cb by simp_all
  have "\<bar>line_double oi - of_int c / 100\<bar> \<le> of_int c / 100 / 2251799813685248"
    unfolding line_double_def c_def using v by (rule line_close)
  hence n: "\<bar>line_double oi - of_int c / 100\<bar> \<le> 49 / 10000"
    using cr by linarith
  have "store_double (line_double oi) = c"
  proof (rule store_exact)
    show "0 \<le> line_double oi" unfolding line_double_def using v by (rule line_nonneg)
    show "0 \<le> c" by (rule c0)
    show "c \<le> 100000000000" using cb by simp
    show "\<bar>line_double oi - of_int c / 100\<bar> \<le> 49 / 10000" by (rule n)
  qed
  with Cons.IH [OF vr rb] show ?case
    by (simp add: c_def)
qed

lemma rate_close:
  assumes "rate_valid d"
  shows "0 \<le> configured_rate d" and "configured_rate d \<le> 100" and "0 \<le> taxRate_of d"
    and "\<bar>taxRate_of d - configured_rate d\<bar> \<le> configured_rate d / 9007199254740992"
proof -
  show "0 \<le> configured_rate d" and "configured_rate d \<le> 100"
    using assms by (simp_all add: rate_valid_def configured_rate_def split: option.splits)
  show "0 \<le> taxRate_of d"
    using assms by (simp add: rate_valid_def taxRate_of_def fl_nonneg split: option.splits)
  show "\<bar>taxRate_of d - configured_rate d\<bar> \<le> configured_rate d / 9007199254740992"
  proof (cases "tax_rate d")
    case None
    then show ?thesis by (simp add: taxRate_of_def configured_rate_def)
  next
    case (Some x)
    with assms have "0 \<le> x" by (simp add: rate_valid_def)
    with fl_error [of x] Some show ?thesis
      by (simp add: taxRate_of_def configured_rate_def)
  qed
qed

lemma order_doubles:
  assumes v: "list_all (\<lambda>oi. 0 \<le> unit_price oi \<and> 0 \<le> oi_quantity oi) ois"
      and r: "rate_valid d"
      and n: "length ois \<le> max_lines" and a: "lines_amount ois \<le> max_amount"
  shows "0 \<le> subtotal_double ois" and "subtotal_double ois \<le> 100000001"
    and "\<bar>subtotal_double ois - of_int (lines_amount ois) / 100\<bar> \<le> 1 / 250"
    and "0 \<le> fdiv (fmul (subtotal_double ois) (taxRate_of d)) 100"
    and "fdiv (fmul (subtotal_double ois) (taxRate_of d)) 100 \<le> 100000001"
    and "\<bar>fdiv (fmul (subtotal_double ois) (taxRate_of d)) 100
            - of_int (lines_amount ois) / 100 * configured_rate d / 100\<bar>
           \<le> configured_rate d / 25000 + 1 / 10000000"
proof -
  define A :: rat where "A = of_int (lines_amount ois) / 100"
  define x where "x = configured_rate d"
  define S where "S = subtotal_double ois"
  define T where "T = fdiv (fmul S (taxRate_of d)) 100"
  have A: "0 \<le> A" "A \<le> 100000000"
    using lines_amount_nonneg [OF v] a by (simp_all add: A_def max_amount_def)
  have S0: "0 \<le> S" unfolding S_def using v by (rule subtotal_double_nonneg)
  have Sc: "\<bar>S - A\<bar> \<le> 1 / 250" unfolding S_def A_def using v n a by (rule subtotal_double_close)
  note rc = rate_close [OF r, folded x_def]
  have Tc: "\<bar>T - A * x / 100\<bar> \<le> x / 25000 + 1 / 10000000" and T0: "0 \<le> T"
    unfolding T_def using S0 Sc A rc(1,2,3,4) by (rule tax_close)+
  have "A * x \<le> 100000000 * 100"
    using A rc(1,2) by (intro mult_mono) simp_all
  hence Tb: "T \<le> 100000001" using Tc rc(2) by linarith
  have Sb: "S \<le> 100000001" using Sc A by linarith
  show "0 \<le> subtotal_double ois" and "subtotal_double ois \<le> 100000001"
    and "\<bar>subtotal_double ois - of_int (lines_amount ois) / 100\<bar> \<le> 1 / 250"
    and "0 \<le> fdiv (fmul (subtotal_double ois) (taxRate_of d)) 100"
    and "fdiv (fmul (subtotal_double ois) (taxRate_of d)) 100 \<le> 100000001"
    and "\<bar>fdiv (fmul (subtotal_double ois) (taxRate_of d)) 100
            - of_int (lines_amount ois) / 100 * configured_rate d / 100\<bar>
           \<le> configured_rate d / 25000 + 1 / 10000000"
    using S0 Sb Sc T0 Tb Tc unfolding S_def T_def A_def x_def by simp_all
qed


lemma created_order_row:
  assumes ok: "steps_succeed f e req d" and fresh: "fresh_order_id d"
  obtains ois orderId where
    "orders (snd (create_order f e req d)) = orders d @
       [order_values e req (subtotal_double ois)
          (fdiv (fmul (subtotal_double ois) (taxRate_of d)) 100)
          (fadd (subtotal_double ois) (fdiv (fmul (subtotal_double ois) (taxRate_of d)) 100))
          orderId]"
    and "order_items (snd (create_order f e req d)) = order_items d @ ois"
    and "list_all2 (order_line_row d orderId) (items req) ois"
proof -
  from create_order_tx_succeeds [OF ok fresh] obtain orderId kotId tot dc where
    tx: "create_order_tx f e req d = (Inr (orderId, kotId, tot), dc)"
    by blast
  from create_order_tx_Inr [OF tx fresh] obtain ois where
    x: "tot = fadd (subtotal_double ois) (fdiv (fmul (subtotal_double ois) (taxRate_of d)) 100)"
       "orders dc = orders d @
           [order_values e req (subtotal_double ois)
              (fdiv (fmul (subtotal_double ois) (taxRate_of d)) 100) tot orderId]"
       "order_items dc = order_items d @ ois"
       "list_all2 (order_line_row d orderId) (items req) ois"
    by blast
  note c = create_order_committed [OF tx]
  show thesis
    using that [of ois orderId] x c(2,3) by simp
qed

lemma created_order_lines:
  assumes ok: "steps_succeed f e req d" and "prices_valid d"
      and rows: "list_all2 (order_line_row d orderId) (items req) ois"
  shows "list_all (\<lambda>oi. 0 \<le> unit_price oi \<and> 0 \<le> oi_quantity oi) ois"
    and "length ois = length (items req)"
proof -
  from ok have "list_all (\<lambda>item. 1 \<le> quantity item) (items req)"
    by (simp add: steps_succeed_def valid_request_def)
  with rows assms(2) show "list_all (\<lambda>oi. 0 \<le> unit_price oi \<and> 0 \<le> oi_quantity oi) ois"
    by (intro order_lines_nonneg)
  show "length ois = length (items req)"
    using rows by (simp add: list_all2_lengthD)
qed

text \<open>
  C3. For every created order whose menu prices are not negative, whose configured tax
  rate is a percentage and whose request has a size the server accepts: \<open>discount_amount\<close>
  is 0 and \<open>total_amount\<close> is not negative; and when the order's lines (unit price times
  quantity) sum to an amount its columns can hold, the stored amounts satisfy
  \<open>total_amount = subtotal + tax_amount - discount_amount\<close> within 0.01 (one hundredth,
  the unit of the stored amounts), every order item's \<open>total_price\<close> is its \<open>unit_price\<close>
  times its \<open>quantity\<close>, and \<open>subtotal\<close> is the sum of the items' \<open>total_price\<close>; the
  rounding errors of the doubles the route computes with are too small to show in the
  stored hundredths.
\<close>

theorem created_order_amounts:
  assumes "steps_succeed f e req d" and "fresh_order_id d"
      and "prices_valid d" and "rate_valid d" and "length (items req) \<le> max_lines"
  shows "\<exists>r ois.
           orders (snd (create_order f e req d)) = orders d @ [r] \<and>
           order_items (snd (create_order f e req d)) = order_items d @ ois \<and>
           length ois = length (items req) \<and>
           discount_amount r = 0 \<and>
           0 \<le> total_amount r \<and>
           (lines_amount ois \<le> max_amount \<longrightarrow>
              \<bar>total_amount r - (subtotal r + tax_amount r - discount_amount r)\<bar> \<le> 1 \<and>
              list_all (\<lambda>oi. total_price oi = unit_price oi * oi_quantity oi) ois \<and>
              subtotal r = sum_list (map total_price ois))"
proof -
  from created_order_row [OF assms(1,2)] obtain ois orderId where
    x: "orders (snd (create_order f e req d)) = orders d @
          [order_values e req (subtotal_double ois)
             (fdiv (fmul (subtotal_double ois) (taxRate_of d)) 100)
             (fadd (subtotal_double ois) (fdiv (fmul (subtotal_double ois) (taxRate_of d)) 100))
             orderId]"
       "order_items (snd (create_order f e req d)) = order_items d @ ois"
       "list_all2 (order_line_row d orderId) (items req) ois"
    by blast
  define S where "S = subtotal_double ois"
  define T where "T = fdiv (fmul S (taxRate_of d)) 100"
  define r where "r = order_values e req S T (fadd S T) orderId"
  note l = created_order_lines [OF assms(1,3) x(3)]
  have len: "length ois \<le> max_lines" using l(2) assms(5) by simp
  have row: "orders (snd (create_order f e req d)) = orders d @ [r]"
    using x(1) by (simp only: r_def T_def S_def)
  have sub: "subtotal r = store_double S" and tax: "tax_amount r = store_double T"
    and dis: "discount_amount r = 0" and tot: "total_amount r = store_double (fadd S T)"
    by (simp_all add: r_def order_values_def)
  have S0: "0 \<le> S" unfolding S_def using l(1) by (rule subtotal_double_nonneg)
  have T0: "0 \<le> T"
    unfolding T_def fdiv_def fmul_def using S0 rate_close(3) [OF assms(4)]
    by (intro fl_nonneg divide_nonneg_nonneg mult_nonneg_nonneg) simp_all
  have "0 \<le> fadd S T" unfolding fadd_def using S0 T0 by (intro fl_nonneg) simp
  hence nonneg: "0 \<le> total_amount r" unfolding tot by (rule store_nonneg)
  have amounts: "\<bar>total_amount r - (subtotal r + tax_amount r - discount_amount r)\<bar> \<le> 1 \<and>
              list_all (\<lambda>oi. total_price oi = unit_price oi * oi_quantity oi) ois \<and>
              subtotal r = sum_list (map total_price ois)"
    if a: "lines_amount ois \<le> max_amount"
  proof -
    note b = order_doubles [OF l(1) assms(4) len a, folded S_def, folded T_def]
    have tol: "\<bar>total_amount r - (subtotal r + tax_amount r - discount_amount r)\<bar> \<le> 1"
      unfolding sub tax dis tot using stored_total_tolerance [OF b(1,2,4,5)] by simp
    have "list_all (\<lambda>oi. total_price oi = store_double (line_double oi) \<and>
                          store_double (line_double oi) = unit_price oi * oi_quantity oi) ois"
      using order_lines_stored [OF x(3)] stored_lines_exact [OF l(1) a]
      by (simp add: list_all_iff)
    hence lines: "list_all (\<lambda>oi. total_price oi = unit_price oi * oi_quantity oi) ois"
      by (simp add: list_all_iff)
    hence "map total_price ois = map (\<lambda>oi. unit_price oi * oi_quantity oi) ois"
      by (simp add: list_all_iff)
    hence "sum_list (map total_price ois) = lines_amount ois"
      by (simp only: lines_amount_def)
    moreover have "subtotal r = lines_amount ois"
      unfolding sub S_def using l(1) len a by (rule stored_subtotal)
    ultimately show ?thesis
      using tol lines by simp
  qed
  from row x(2) l(2) dis nonneg amounts show ?thesis
    by blast
qed

theorem created_order_amounts_witness:
  "steps_succeed no_faults demo_env cola_request demo_db \<and> fresh_order_id demo_db \<and>
   prices_valid demo_db \<and> rate_valid demo_db \<and> length (items cola_request) \<le> max_lines \<and>
   lines_amount (drop 3 (order_items (snd (create_order no_faults demo_env cola_request
                                             demo_db)))) = 500 \<and>
   500 \<le> max_amount \<and>
   map subtotal (orders (snd (create_order no_faults demo_env cola_request demo_db))) =
     [20500, 500] \<and>
   map tax_amount (orders (snd (create_order no_faults demo_env cola_request demo_db))) =
     [1743, 43] \<and>
   map discount_amount (orders (snd (create_order no_faults demo_env cola_request demo_db))) =
     [0, 0] \<and>
   map total_amount (orders (snd (create_order no_faults demo_env cola_request demo_db))) =
     [22243, 543] \<and>
   map unit_price (order_items (snd (create_order no_faults demo_env cola_request demo_db))) =
     [10000, 250, 10000, 250] \<and>
   map oi_quantity (order_items (snd (create_order no_faults demo_env cola_request demo_db))) =
     [1, 2, 1, 2] \<and>
   map total_price (order_items (snd (create_order no_faults demo_env cola_request demo_db))) =
     [10000, 500, 10000, 500]"
proof -
  have p: "prices_valid demo_db" "rate_valid demo_db" "length (items cola_request) \<le> max_lines"
    "500 \<le> max_amount"
    by (simp_all add: prices_valid_def rate_valid_def max_lines_def max_amount_def demo_db_def
          cola_request_def demo_request_def)
  have v: "lines_amount (drop 3 (order_items (snd (create_order no_faults demo_env cola_request
                                             demo_db)))) = 500"
    "map subtotal (orders (snd (create_order no_faults demo_env cola_request demo_db))) =
       [20500, 500]"
    "map tax_amount (orders (snd (create_order no_faults demo_env cola_request demo_db))) =
       [1743, 43]"
    "map discount_amount (orders (snd (create_order no_faults demo_env cola_request demo_db))) =
       [0, 0]"
    "map total_amount (orders (snd (create_order no_faults demo_env cola_request demo_db))) =
       [22243, 543]"
    "map unit_price (order_items (snd (create_order no_faults demo_env cola_request demo_db))) =
       [10000, 250, 10000, 250]"
    "map oi_quantity (order_items (snd (create_order no_faults demo_env cola_request demo_db))) =
       [1, 2, 1, 2]"
    "map total_price (order_items (snd (create_order no_faults demo_env cola_request demo_db))) =
       [10000, 500, 10000, 500]"
    by (simp_all add: order_defs sample_defs double_values lines_amount_def)
  show ?thesis
    using created_order_amounts [OF demo_steps_succeed(2) demo_fresh(1) p(1,2,3)]
          demo_steps_succeed(2) demo_fresh(1) p v
    by simp
qed




subsection \<open>The category classifier\<close>

lemma categoryType_subset:
  "categoryType cats =
     (if set cats \<subseteq> set foodCategories then ''Food''
      else if set cats \<subseteq> set drinkCategories then ''Beverages''
      else ''Mixed'')"
  by (simp only: categoryType_def list_all_iff subset_eq)

lemma itemCategories_names: "set (itemCategories d ids) = category_names d (set ids)"
proof (intro set_eqI iffI)
  fix n
  assume "n \<in> set (itemCategories d ids)"
  then obtain mi sc c where "mi \<in> set (menu_items d)" "mi_id mi \<in> set ids"
    "sc \<in> set (subcategories d)" "mi_subcategory_id mi = sc_id sc"
    "c \<in> set (categories d)" "sc_category_id sc = c_id c" "n = c_name c"
    unfolding itemCategories_def by auto
  then show "n \<in> category_names d (set ids)"
    unfolding category_names_def by (simp only: mem_Collect_eq) metis
next
  fix n
  assume "n \<in> category_names d (set ids)"
  then obtain mi sc c where "n = c_name c" "mi \<in> set (menu_items d)" "mi_id mi \<in> set ids"
    "sc \<in> set (subcategories d)" "sc_id sc = mi_subcategory_id mi"
    "c \<in> set (categories d)" "c_id c = sc_category_id sc"
    unfolding category_names_def by blast
  then show "n \<in> set (itemCategories d ids)"
    unfolding itemCategories_def by force
qed

lemma itemCategories_distinct: "distinct (itemCategories d ids)"
  by (simp add: itemCategories_def)

lemma created_ticket_row:
  assumes ok: "steps_succeed f e req d" and fresh: "fresh_order_id d" "fresh_kot_id d"
  obtains k where "kots (snd (create_order f e req d)) = kots d @ [k]"
    and "category_type k = categoryType (itemCategories d (map menu_item_id (items req)))"
proof -
  from create_order_tx_succeeds [OF ok fresh(1)] obtain orderId kotId tot dc where
    tx: "create_order_tx f e req d = (Inr (orderId, kotId, tot), dc)"
    by blast
  from create_order_tx_Inr [OF tx fresh(1)] have
    x: "kotId = next_kot_id d"
       "kots dc = kots d @
           [kot_values e orderId
              (categoryType (itemCategories d (map menu_item_id (items req)))) kotId]"
    by blast+
  note c = create_order_committed [OF tx]
  define k0 where "k0 = kot_values e orderId
              (categoryType (itemCategories d (map menu_item_id (items req)))) kotId"
  define k where "k = (if kots (snd (create_order f e req d)) = kots dc then k0
                       else k0\<lparr>k_status := ''Printed'', printed_at := Some (clock e)\<rparr>)"
  have kk: "kots (snd (create_order f e req d)) = kots d @ [k]"
    using c(5) printed_keeps_old_tickets [OF fresh(2)]
    by (auto simp: k_def k0_def x kot_values_def)
  have "category_type k = categoryType (itemCategories d (map menu_item_id (items req)))"
    by (simp add: k_def k0_def kot_values_def)
  with kk show thesis
    using that by blast
qed

text \<open>
  C4. The classifier is a function of the set of category names of the order's menu
  items: \<open>Food\<close> when every name is in the food list, otherwise \<open>Beverages\<close> when every
  name is in the drink list, otherwise \<open>Mixed\<close>. Two lists of names with the same set of
  elements (any order, any repetition) get the same tag. The names the route classifies
  are the category names of the requested menu items, each once; two lists of items with
  the same set of category names get the same tag; and the ticket of a created order
  carries the tag of the category names of its items.
\<close>

theorem categoryType_of_name_set:
  "categoryType cats =
     (if set cats \<subseteq> set foodCategories then ''Food''
      else if set cats \<subseteq> set drinkCategories then ''Beverages''
      else ''Mixed'') \<and>
   (set cats = set cats' \<longrightarrow> categoryType cats = categoryType cats') \<and>
   set (itemCategories d ids) = category_names d (set ids) \<and>
   distinct (itemCategories d ids) \<and>
   (category_names d (set ids) = category_names d (set ids') \<longrightarrow>
      categoryType (itemCategories d ids) = categoryType (itemCategories d ids')) \<and>
   (steps_succeed f e req d \<and> fresh_order_id d \<and> fresh_kot_id d \<longrightarrow>
      (\<exists>k. kots (snd (create_order f e req d)) = kots d @ [k] \<and>
           category_type k =
             (if category_names d (set (map menu_item_id (items req))) \<subseteq> set foodCategories
              then ''Food''
              else if category_names d (set (map menu_item_id (items req)))
                        \<subseteq> set drinkCategories
              then ''Beverages''
              else ''Mixed'')))"
proof (intro conjI impI)
  show "categoryType cats =
     (if set cats \<subseteq> set foodCategories then ''Food''
      else if set cats \<subseteq> set drinkCategories then ''Beverages''
      else ''Mixed'')"
    by (rule categoryType_subset)
  show "categoryType cats = categoryType cats'" if "set cats = set cats'"
    by (simp only: categoryType_subset that)
  show "set (itemCategories d ids) = category_names d (set ids)"
    by (rule itemCategories_names)
  show "distinct (itemCategories d ids)"
    by (rule itemCategories_distinct)
  show "categoryType (itemCategories d ids) = categoryType (itemCategories d ids')"
    if "category_names d (set ids) = category_names d (set ids')"
    by (simp only: categoryType_subset itemCategories_names that)
  show "\<exists>k. kots (snd (create_order f e req d)) = kots d @ [k] \<and>
           category_type k =
             (if category_names d (set (map menu_item_id (items req))) \<subseteq> set foodCategories
              then ''Food''
              else if category_names d (set (map menu_item_id (items req)))
                        \<subseteq> set drinkCategories
              then ''Beverages''
              else ''Mixed'')"
    if "steps_succeed f e req d \<and> fresh_order_id d \<and> fresh_kot_id d"
    using that created_ticket_row [of f e req d]
    unfolding categoryType_subset itemCategories_names by blast
qed

theorem categoryType_of_name_set_witness:
  "set [''Food'', ''Drinks''] = set [''Drinks'', ''Food'', ''Food''] \<and>
   categoryType [''Food'', ''Drinks''] = ''Mixed'' \<and>
   categoryType [''Drinks'', ''Food'', ''Food''] = ''Mixed'' \<and>
   categoryType [''Food'', ''Food''] = ''Food'' \<and>
   categoryType [''Drinks'', ''Beverages''] = ''Beverages'' \<and>
   itemCategories demo_db [2, 1, 2] = [''Food'', ''Drinks''] \<and>
   itemCategories demo_db [1, 2] = [''Food'', ''Drinks''] \<and>
   itemCategories demo_db [2, 2] = [''Drinks''] \<and>
   category_names demo_db (set [2, 1, 2]) = {''Food'', ''Drinks''} \<and>
   category_names demo_db (set [1, 2]) = {''Food'', ''Drinks''} \<and>
   category_names demo_db (set (map menu_item_id (items cola_request))) = {''Drinks''} \<and>
   categoryType (itemCategories demo_db [2, 1, 2]) = ''Mixed'' \<and>
   categoryType (itemCategories demo_db [1, 2]) = ''Mixed'' \<and>
   steps_succeed no_faults demo_env cola_request demo_db \<and>
   fresh_order_id demo_db \<and> fresh_kot_id demo_db \<and>
   map category_type (kots (snd (create_order no_faults demo_env cola_request demo_db))) =
     [''Mixed'', ''Beverages''] \<and>
   map category_type (kots (snd (create_order no_faults demo_env demo_request demo_db))) =
     [''Mixed'', ''Food''] \<and>
   map category_type (kots (snd (create_order no_faults demo_env mixed_request demo_db))) =
     [''Mixed'', ''Mixed'']"
proof -
  have s: "set [''Food'', ''Drinks''] = set [''Drinks'', ''Food'', ''Food'']"
    by auto
  have c: "categoryType [''Food'', ''Drinks''] = ''Mixed''"
    "categoryType [''Food'', ''Food''] = ''Food''"
    "categoryType [''Drinks'', ''Beverages''] = ''Beverages''"
    by (simp_all add: categoryType_def foodCategories_def drinkCategories_def)
  have i: "itemCategories demo_db [2, 1, 2] = [''Food'', ''Drinks'']"
    "itemCategories demo_db [1, 2] = [''Food'', ''Drinks'']"
    "itemCategories demo_db [2, 2] = [''Drinks'']"
    "map menu_item_id (items cola_request) = [2]"
    "itemCategories demo_db [2] = [''Drinks'']"
    by (simp_all add: itemCategories_def demo_db_def cola_request_def demo_request_def)
  have k: "map category_type (kots (snd (create_order no_faults demo_env cola_request demo_db))) =
             [''Mixed'', ''Beverages'']"
    "map category_type (kots (snd (create_order no_faults demo_env demo_request demo_db))) =
       [''Mixed'', ''Food'']"
    "map category_type (kots (snd (create_order no_faults demo_env mixed_request demo_db))) =
       [''Mixed'', ''Mixed'']"
    by (simp_all add: order_defs sample_defs)
  note t1 = categoryType_of_name_set
             [where cats = "[''Food'', ''Drinks'']" and cats' = "[''Drinks'', ''Food'', ''Food'']"
                and f = no_faults and e = demo_env and req = cola_request and d = demo_db
                and ids = "[2, 1, 2]" and ids' = "[1, 2]"]
  note t2 = categoryType_of_name_set
             [where cats = "[]" and cats' = "[]"
                and f = no_faults and e = demo_env and req = cola_request and d = demo_db
                and ids = "[1, 2]" and ids' = "[2]"]
  note t3 = categoryType_of_name_set
             [where cats = "[]" and cats' = "[]"
                and f = no_faults and e = demo_env and req = cola_request and d = demo_db
                and ids = "[2]" and ids' = "[2]"]
  from t1 s c(1) have m: "categoryType [''Drinks'', ''Food'', ''Food''] = ''Mixed''"
    by simp
  from t1 i(1) have n1: "category_names demo_db (set [2, 1, 2]) = {''Food'', ''Drinks''}"
    by (metis list.simps(15) empty_set)
  from t2 i(2) have n2: "category_names demo_db (set [1, 2]) = {''Food'', ''Drinks''}"
    by (metis list.simps(15) empty_set)
  from t3 i(4,5) have n3:
    "category_names demo_db (set (map menu_item_id (items cola_request))) = {''Drinks''}"
    by (metis list.simps(15) empty_set)
  from t1 n1 n2 i(1,2) c(1) have g: "categoryType (itemCategories demo_db [2, 1, 2]) = ''Mixed''"
    "categoryType (itemCategories demo_db [1, 2]) = ''Mixed''"
    by simp_all
  from s c m i(1,2,3) n1 n2 n3 g k demo_steps_succeed(2) demo_fresh(1,2) show ?thesis
    by blast
qed

subsection \<open>Printing after the commit\<close>

lemma printKOT_no_printer:
  "mapped_printers d kotId = [] \<Longrightarrow> default_printers d = [] \<Longrightarrow>
     \<exists>err. fst (printKOT f e kotId d) = Inl err"
  by (simp add: printKOT_def select_printer_def)

text \<open>
  What \<open>printKOT\<close> does after the commit is never reported: when the read of the
  auto-print setting returns, the answer is 201 with the order id, order number, ticket
  number and total; the committed orders, order items and ticket lines are unchanged and
  no ticket is removed. When \<open>printKOT\<close> fails, and in particular when there is neither a
  mapped printer nor an active online Kitchen printer, the database is exactly the
  committed one.
\<close>

lemma printKOT_failure_not_reported:
  assumes "create_order_tx f e req d = (Inr (orderId, kotId, totalAmount), dc)"
      and "\<not> f SelectAutoPrint"
  shows "fst (create_order f e req d) =
           Created orderId (orderNumber e) (kotNumber e) totalAmount \<and>
         orders (snd (create_order f e req d)) = orders dc \<and>
         order_items (snd (create_order f e req d)) = order_items dc \<and>
         kot_items (snd (create_order f e req d)) = kot_items dc \<and>
         map k_id (kots (snd (create_order f e req d))) = map k_id (kots dc) \<and>
         map k_order_id (kots (snd (create_order f e req d))) = map k_order_id (kots dc) \<and>
         (\<forall>err. fst (printKOT f e kotId dc) = Inl err \<longrightarrow>
            snd (create_order f e req d) = dc) \<and>
         (mapped_printers dc kotId = [] \<and> default_printers dc = [] \<longrightarrow>
            snd (create_order f e req d) = dc)"
proof -
  note c = create_order_committed [OF assms(1)]
  have ids: "map k_id (kots (snd (create_order f e req d))) = map k_id (kots dc)"
    "map k_order_id (kots (snd (create_order f e req d))) = map k_order_id (kots dc)"
    using c(5) by (auto simp: comp_def if_distrib cong: if_cong)
  have failed: "snd (create_order f e req d) = dc" if "fst (printKOT f e kotId dc) = Inl err"
    for err
    using assms that by (simp add: create_order_def printKOT_failure)
  have none: "snd (create_order f e req d) = dc"
    if "mapped_printers dc kotId = [] \<and> default_printers dc = []"
    using printKOT_no_printer [of dc kotId f e] that failed by blast
  from c(1-4) assms(2) ids failed none show ?thesis
    by simp
qed

lemma no_printer_order_created:
  "fst (create_order no_faults demo_env demo_request no_printer_db) =
     Created 2 ''ORD-2-7'' ''KOT-2-9'' (217 / 2)"
  "map o_id (orders (snd (create_order no_faults demo_env demo_request no_printer_db))) = [1, 2]"
  "map k_order_id (kots (snd (create_order no_faults demo_env demo_request no_printer_db))) =
     [1, 2]"
  "map k_status (kots (snd (create_order no_faults demo_env demo_request no_printer_db))) =
     [''Preparing'', ''Pending'']"
  by (simp_all add: order_defs sample_defs double_values)

text \<open>
  C5. A failure of printer routing or print dispatch after the commit is not to be
  reported as a failure of order creation: every request that commits is to be answered
  with success. The route does not keep to it on one path. The read of the auto-print
  setting (\<open>SELECT setting_value ... 'kot_auto_print'\<close>) comes after the commit and
  outside the \<open>try\<close> that guards \<open>printKOT\<close>; when it throws, the outer \<open>catch\<close> answers
  500. On the sample database, the sample request with that read throwing commits order 2
  with its item, ticket 2 and its line, and is answered 500, where the same request
  without the fault is answered 201.
\<close>

theorem setting_read_failure_answers_500:
  "steps_succeed setting_read_fault demo_env demo_request demo_db \<and>
   fst (create_order_tx setting_read_fault demo_env demo_request demo_db) =
     Inr (2, 2, 217 / 2) \<and>
   fst (create_order setting_read_fault demo_env demo_request demo_db) = InternalServerError \<and>
   map o_id (orders (snd (create_order setting_read_fault demo_env demo_request demo_db))) =
     [1, 2] \<and>
   map oi_order_id
     (order_items (snd (create_order setting_read_fault demo_env demo_request demo_db))) =
     [1, 1, 1, 2] \<and>
   map k_order_id (kots (snd (create_order setting_read_fault demo_env demo_request demo_db))) =
     [1, 2] \<and>
   map ki_kot_id
     (kot_items (snd (create_order setting_read_fault demo_env demo_request demo_db))) =
     [1, 1, 1, 2] \<and>
   fst (create_order no_faults demo_env demo_request demo_db) =
     Created 2 ''ORD-2-7'' ''KOT-2-9'' (217 / 2)"
proof -
  have a: "fst (create_order_tx setting_read_fault demo_env demo_request demo_db) =
     Inr (2, 2, 217 / 2)"
    by (simp add: order_defs sample_defs double_values)
  have b: "fst (create_order setting_read_fault demo_env demo_request demo_db) =
     InternalServerError"
    "map o_id (orders (snd (create_order setting_read_fault demo_env demo_request demo_db))) =
     [1, 2]"
    "map oi_order_id
       (order_items (snd (create_order setting_read_fault demo_env demo_request demo_db))) =
     [1, 1, 1, 2]"
    "map k_order_id (kots (snd (create_order setting_read_fault demo_env demo_request demo_db))) =
     [1, 2]"
    "map ki_kot_id
       (kot_items (snd (create_order setting_read_fault demo_env demo_request demo_db))) =
     [1, 1, 1, 2]"
    by (simp_all add: order_defs sample_defs double_values)
  have c: "fst (create_order no_faults demo_env demo_request demo_db) =
     Created 2 ''ORD-2-7'' ''KOT-2-9'' (217 / 2)"
    by (simp add: order_defs sample_defs double_values)
  from demo_steps_succeed(6) a b c show ?thesis
    by blast
qed

end
